theory Spec2Isabelle
  imports Complex_Main "HOL-Library.Multiset"
begin

section \<open>JavaScript strings\<close>

text \<open>
  Texts are modelled as \<^typ>\<open>string\<close>, one \<^typ>\<open>char\<close> per code unit, so the
  model holds the texts whose code units lie below 256. On them \<^verbatim>\<open>toLowerCase\<close>,
  \<^verbatim>\<open>trim\<close> and the comparisons are those of the language; so is
  \<^verbatim>\<open>toUpperCase\<close>, but for the two letters whose capitals lie beyond 255.
\<close>

definition is_upper :: "char \<Rightarrow> bool" where
  "is_upper c \<longleftrightarrow> (65::nat) \<le> of_char c \<and> of_char c \<le> (90::nat)"

definition is_lower :: "char \<Rightarrow> bool" where
  "is_lower c \<longleftrightarrow> (97::nat) \<le> of_char c \<and> of_char c \<le> (122::nat)"

definition is_digit :: "char \<Rightarrow> bool" where
  "is_digit c \<longleftrightarrow> (48::nat) \<le> of_char c \<and> of_char c \<le> (57::nat)"

text \<open>White space as \<^verbatim>\<open>String.prototype.trim\<close> sees it: TAB, LF, VT, FF, CR, SP, NBSP.\<close>

definition is_space :: "char \<Rightarrow> bool" where
  "is_space c \<longleftrightarrow> of_char c \<in> {9, 10, 11, 12, 13, 32, 160 :: nat}"

text \<open>
  The capital letters below 256 are A to Z and U+00C0 to U+00DE without the sign
  U+00D7; the small letter of each lies 32 above it.
\<close>

definition is_capital :: "char \<Rightarrow> bool" where
  "is_capital c \<longleftrightarrow>
     is_upper c \<or> ((192::nat) \<le> of_char c \<and> of_char c \<le> (222::nat) \<and> of_char c \<noteq> (215::nat))"

definition to_lower_char :: "char \<Rightarrow> char" where
  "to_lower_char c = (if is_capital c then char_of (of_char c + (32::nat)) else c)"

definition toLowerCase :: "string \<Rightarrow> string" where
  "toLowerCase s = map to_lower_char s"

text \<open>
  The small letters with a capital below 256 are a to z and U+00E0 to U+00FE without
  the sign U+00F7. The sharp s, U+00DF, becomes the two letters SS. The capitals of
  the micro sign U+00B5 and of U+00FF are U+039C and U+0178, beyond the texts of the
  model, which keeps these two letters as they are.
\<close>

definition is_small :: "char \<Rightarrow> bool" where
  "is_small c \<longleftrightarrow>
     is_lower c \<or> ((224::nat) \<le> of_char c \<and> of_char c \<le> (254::nat) \<and> of_char c \<noteq> (247::nat))"

definition to_upper_chars :: "char \<Rightarrow> string" where
  "to_upper_chars c =
     (if is_small c then [char_of (of_char c - (32::nat))]
      else if of_char c = (223::nat) then ''SS''
      else [c])"

definition toUpperCase :: "string \<Rightarrow> string" where
  "toUpperCase s = concat (map to_upper_chars s)"

definition trim :: "string \<Rightarrow> string" where
  "trim s = rev (dropWhile is_space (rev (dropWhile is_space s)))"

definition starts_with :: "string \<Rightarrow> string \<Rightarrow> bool" where
  "starts_with s sub \<longleftrightarrow> take (length sub) s = sub"

text \<open>\<^verbatim>\<open>s.indexOf(sub)\<close>: the first position where \<open>sub\<close> occurs, \<open>None\<close> for -1.\<close>

fun indexOf :: "string \<Rightarrow> string \<Rightarrow> nat option" where
  "indexOf [] sub = (if sub = [] then Some 0 else None)"
| "indexOf (c # cs) sub =
     (if starts_with (c # cs) sub then Some 0 else map_option Suc (indexOf cs sub))"

definition str_includes :: "string \<Rightarrow> string \<Rightarrow> bool" where
  "str_includes s sub \<longleftrightarrow> indexOf s sub \<noteq> None"

text \<open>The relational operators on strings compare code units lexicographically.\<close>

fun str_le :: "string \<Rightarrow> string \<Rightarrow> bool" where
  "str_le [] t = True"
| "str_le (a # s) [] = False"
| "str_le (a # s) (b # t) =
     ((of_char a :: nat) < of_char b \<or> (a = b \<and> str_le s t))"

text \<open>The first element on which \<open>f\<close> yields a result: a loop left by \<^verbatim>\<open>break\<close>.\<close>

fun first_some :: "('a \<Rightarrow> 'b option) \<Rightarrow> 'a list \<Rightarrow> 'b option" where
  "first_some f [] = None"
| "first_some f (x # xs) = (case f x of Some y \<Rightarrow> Some y | None \<Rightarrow> first_some f xs)"


section \<open>Dates (src/utils/dateHelpers.ts)\<close>

text \<open>
  \<^verbatim>\<open>isDelayed(createdAt, status)\<close>. Time stamps are whole milliseconds since the epoch;
  the reading of the clock, \<^verbatim>\<open>Date.now()\<close>, is the first argument. The quotient is
  taken in the reals: on whole milliseconds the rounded quotient of the program compares
  with 48 as the exact one does, the next quotient above 48 being 48 + 1/3600000.
\<close>

definition isDelayed :: "int \<Rightarrow> int \<Rightarrow> string \<Rightarrow> bool" where
  "isDelayed now createdAt status =
     (if status \<noteq> ''Pending'' then False
      else let hoursElapsed = real_of_int (now - createdAt) / (1000 * 60 * 60)
           in hoursElapsed > 48)"


section \<open>Records (types)\<close>

text \<open>
  \<^verbatim>\<open>PQRecord\<close>. The form state is the record without its \<^verbatim>\<open>id\<close>
  (\<^verbatim>\<open>Pick<PQRecord, Exclude<keyof PQRecord, 'id'>>\<close>), so the record extends it.
\<close>

record form_data =
  date :: string
  shipper_name :: string
  buyer :: string
  invoice_number :: string
  commodity :: string
  shipping_bill_received :: bool
  pq_status :: string
  pq_hardcopy :: string
  permit_copy_status :: string
  destination_port :: string
  remarks :: string
  files :: "string list"
  created_at :: string
  updated_at :: string

record pq_record = form_data +
  record_id :: string

text \<open>A JavaScript value as the records view meets it.\<close>

datatype jsval = JUndefined | JBool bool | JStr string | JObject

definition truthy :: "jsval \<Rightarrow> bool" where
  "truthy v = (case v of JUndefined \<Rightarrow> False | JBool b \<Rightarrow> b | JStr s \<Rightarrow> s \<noteq> [] | JObject \<Rightarrow> True)"

text \<open>
  Strict equality \<^verbatim>\<open>===\<close>: values of different types are never equal. Objects are
  equal only as the same reference, and the records view never holds a reference to the
  \<^verbatim>\<open>files\<close> of a record in a filter.
\<close>

definition strict_eq :: "jsval \<Rightarrow> jsval \<Rightarrow> bool" where
  "strict_eq a b =
     (case (a, b) of
        (JUndefined, JUndefined) \<Rightarrow> True
      | (JBool x, JBool y) \<Rightarrow> x = y
      | (JStr x, JStr y) \<Rightarrow> x = y
      | _ \<Rightarrow> False)"

text \<open>\<^verbatim>\<open>record[key]\<close>: the property of that name, \<^verbatim>\<open>undefined\<close> when there is none.\<close>

definition record_prop :: "pq_record \<Rightarrow> string \<Rightarrow> jsval" where
  "record_prop r key =
     (if key = ''id'' then JStr (record_id r)
      else if key = ''date'' then JStr (date r)
      else if key = ''shipper_name'' then JStr (shipper_name r)
      else if key = ''buyer'' then JStr (buyer r)
      else if key = ''invoice_number'' then JStr (invoice_number r)
      else if key = ''commodity'' then JStr (commodity r)
      else if key = ''shipping_bill_received'' then JBool (shipping_bill_received r)
      else if key = ''pq_status'' then JStr (pq_status r)
      else if key = ''pq_hardcopy'' then JStr (pq_hardcopy r)
      else if key = ''permit_copy_status'' then JStr (permit_copy_status r)
      else if key = ''destination_port'' then JStr (destination_port r)
      else if key = ''remarks'' then JStr (remarks r)
      else if key = ''files'' then JObject
      else if key = ''created_at'' then JStr (created_at r)
      else if key = ''updated_at'' then JStr (updated_at r)
      else JUndefined)"

definition record_keys :: "string list" where
  "record_keys = [''id'', ''date'', ''shipper_name'', ''buyer'', ''invoice_number'',
     ''commodity'', ''shipping_bill_received'', ''pq_status'', ''pq_hardcopy'',
     ''permit_copy_status'', ''destination_port'', ''remarks'', ''files'', ''created_at'',
     ''updated_at'']"

text \<open>\<^verbatim>\<open>Object.values(record)\<close>.\<close>

definition record_values :: "pq_record \<Rightarrow> jsval list" where
  "record_values r = map (record_prop r) record_keys"


section \<open>The records view (RecordsView)\<close>

datatype active_section = Sec_all | Sec_pending | Sec_received | Sec_hardcopyMissing

datatype sort_order = Asc | Desc

text \<open>
  A number, as far as the program meets numbers: \<^verbatim>\<open>NaN\<close>, a whole number, or one of
  the two infinities.
\<close>

datatype js_number = NaN | Num int | Infinity | NegInfinity

text \<open>
  What the engine supplies: \<^verbatim>\<open>a.localeCompare(b)\<close>; \<^verbatim>\<open>new Date(s).getTime()\<close>, a
  whole number of milliseconds, or \<open>None\<close> for the \<^verbatim>\<open>NaN\<close> of an invalid date; and
  the order in which \<^verbatim>\<open>Array.prototype.sort\<close> leaves an array whose comparator is not
  consistent, as the list of the old positions of the elements.
\<close>

record js_env =
  localeCompare :: "string \<Rightarrow> string \<Rightarrow> int"
  getTime :: "string \<Rightarrow> int option"
  engine_order :: "(pq_record \<Rightarrow> pq_record \<Rightarrow> js_number) \<Rightarrow> pq_record list \<Rightarrow> nat list"

text \<open>
  The props and state of the component that the view is computed from. \<open>filters\<close> is an
  object: its entries in insertion order.
\<close>

record records_view =
  records :: "pq_record list"
  filters :: "(string \<times> jsval) list"
  searchTerm :: string
  sortBy :: string
  sortOrder :: sort_order
  activeSection :: active_section
  dateRange_start :: string
  dateRange_end :: string

text \<open>\<^verbatim>\<open>{ ...obj, [key]: v }\<close>: an own key keeps its place, a new one goes last.\<close>

fun set_prop :: "string \<Rightarrow> 'v \<Rightarrow> (string \<times> 'v) list \<Rightarrow> (string \<times> 'v) list" where
  "set_prop k v [] = [(k, v)]"
| "set_prop k v (p # ps) = (if fst p = k then (k, v) # ps else p # set_prop k v ps)"

definition isRecordCompleted :: "pq_record \<Rightarrow> bool" where
  "isRecordCompleted r =
     (let shippingBill = shipping_bill_received r;
          pqStatus = pq_status r;
          permitStatus = permit_copy_status r
      in shippingBill = True \<and> pqStatus = ''Received'' \<and>
         (permitStatus = ''Received'' \<or> permitStatus = ''Not Required''))"

definition matchesSearch :: "records_view \<Rightarrow> pq_record \<Rightarrow> bool" where
  "matchesSearch v r =
     (if searchTerm v = [] then True
      else list_ex (\<lambda>x. case x of
                      JStr s \<Rightarrow> str_includes (toLowerCase s) (toLowerCase (searchTerm v))
                    | _ \<Rightarrow> False)
             (record_values r))"

definition matchesFilters :: "records_view \<Rightarrow> pq_record \<Rightarrow> bool" where
  "matchesFilters v r =
     list_all (\<lambda>(key, x). if truthy x then strict_eq (record_prop r key) x else True)
       (filters v)"

definition matchesDateRange :: "records_view \<Rightarrow> pq_record \<Rightarrow> bool" where
  "matchesDateRange v r =
     ((if dateRange_start v = [] then True else str_le (dateRange_start v) (date r)) \<and>
      (if dateRange_end v = [] then True else str_le (date r) (dateRange_end v)))"

definition matchesSection :: "records_view \<Rightarrow> pq_record \<Rightarrow> bool" where
  "matchesSection v r =
     (case activeSection v of
        Sec_pending \<Rightarrow>
          (let isComplete = (shipping_bill_received r = True \<and> pq_status r = ''Received'' \<and>
                 (permit_copy_status r = ''Received'' \<or> permit_copy_status r = ''Not Required''))
           in \<not> isComplete)
      | Sec_received \<Rightarrow>
          (shipping_bill_received r = True \<and> pq_status r = ''Received'' \<and>
             (permit_copy_status r = ''Received'' \<or> permit_copy_status r = ''Not Required''))
      | Sec_hardcopyMissing \<Rightarrow>
          (if pq_hardcopy r = [] then ''Not Received'' else pq_hardcopy r) = ''Not Received''
      | Sec_all \<Rightarrow> True)"

definition record_matches :: "records_view \<Rightarrow> pq_record \<Rightarrow> bool" where
  "record_matches v r \<longleftrightarrow>
     matchesSearch v r \<and> matchesFilters v r \<and> matchesDateRange v r \<and> matchesSection v r"

text \<open>
  The comparator of \<^verbatim>\<open>filtered.sort\<close>, with the number it returns. Only the sort
  key \<^verbatim>\<open>date\<close> yields numbers, and their difference is \<^verbatim>\<open>NaN\<close> when a date is
  invalid; of a difference the sort uses the sign only. Two values that are not both
  texts give 0.
\<close>

definition compare_records :: "js_env \<Rightarrow> records_view \<Rightarrow> pq_record \<Rightarrow> pq_record \<Rightarrow> js_number" where
  "compare_records env v a b =
     (let modifier = (if sortOrder v = Asc then 1 else - 1) in
      if sortBy v = ''date'' then
        (case (getTime env (date a), getTime env (date b)) of
           (Some x, Some y) \<Rightarrow> Num ((x - y) * modifier)
         | _ \<Rightarrow> NaN)
      else
        (case (record_prop a (sortBy v), record_prop b (sortBy v)) of
           (JStr x, JStr y) \<Rightarrow> Num (localeCompare env x y * modifier)
         | _ \<Rightarrow> Num 0))"

text \<open>
  \<^verbatim>\<open>Array.prototype.sort\<close>, as the language defines it. \<open>sort_compare\<close> is what the
  sort makes of the number the comparator returns: \<^verbatim>\<open>NaN\<close> counts as 0. A comparator
  is consistent for the elements of an array when it never returns \<^verbatim>\<open>NaN\<close> on them,
  every element equals itself, equality is symmetric, and equality, less and greater
  are transitive. Then the result is fixed: the elements in ascending order, those that
  compare equal in the order they had, which is what the insertion of each element
  before the first one it does not follow gives. Otherwise the language leaves the
  order to the engine: \<open>reorder\<close> puts the elements in the order the engine names (a
  list that is not an order of the positions is no answer of an engine and changes
  nothing).
\<close>

definition sort_compare :: "js_number \<Rightarrow> int" where
  "sort_compare n = (case n of NaN \<Rightarrow> 0 | Num x \<Rightarrow> x | Infinity \<Rightarrow> 1 | NegInfinity \<Rightarrow> - 1)"

definition consistent_comparator :: "('a \<Rightarrow> 'a \<Rightarrow> js_number) \<Rightarrow> 'a list \<Rightarrow> bool" where
  "consistent_comparator cmp xs \<longleftrightarrow>
     list_all (\<lambda>a. list_all (\<lambda>b. cmp a b \<noteq> NaN) xs) xs \<and>
     list_all (\<lambda>a. sort_compare (cmp a a) = 0) xs \<and>
     list_all (\<lambda>a. list_all (\<lambda>b.
        if sort_compare (cmp a b) = 0 then sort_compare (cmp b a) = 0 else True) xs) xs \<and>
     list_all (\<lambda>a. list_all (\<lambda>b. list_all (\<lambda>c.
        (if sort_compare (cmp a b) = 0 \<and> sort_compare (cmp b c) = 0
         then sort_compare (cmp a c) = 0 else True) \<and>
        (if sort_compare (cmp a b) < 0 \<and> sort_compare (cmp b c) < 0
         then sort_compare (cmp a c) < 0 else True) \<and>
        (if sort_compare (cmp a b) > 0 \<and> sort_compare (cmp b c) > 0
         then sort_compare (cmp a c) > 0 else True)) xs) xs) xs"

fun insert_by :: "('a \<Rightarrow> 'a \<Rightarrow> js_number) \<Rightarrow> 'a \<Rightarrow> 'a list \<Rightarrow> 'a list" where
  "insert_by cmp x [] = [x]"
| "insert_by cmp x (y # ys) =
     (if sort_compare (cmp x y) \<le> 0 then x # y # ys else y # insert_by cmp x ys)"

definition stable_sort :: "('a \<Rightarrow> 'a \<Rightarrow> js_number) \<Rightarrow> 'a list \<Rightarrow> 'a list" where
  "stable_sort cmp xs = foldr (insert_by cmp) xs []"

definition reorder :: "nat list \<Rightarrow> 'a list \<Rightarrow> 'a list" where
  "reorder p xs = (if sort p = [0 ..< length xs] then map (\<lambda>i. xs ! i) p else xs)"

definition array_sort ::
  "(('a \<Rightarrow> 'a \<Rightarrow> js_number) \<Rightarrow> 'a list \<Rightarrow> nat list) \<Rightarrow> ('a \<Rightarrow> 'a \<Rightarrow> js_number) \<Rightarrow> 'a list \<Rightarrow> 'a list" where
  "array_sort engine cmp xs =
     (if consistent_comparator cmp xs then stable_sort cmp xs
      else reorder (engine cmp xs) xs)"

definition filteredAndSortedRecords :: "js_env \<Rightarrow> records_view \<Rightarrow> pq_record list" where
  "filteredAndSortedRecords env v =
     (let filtered = filter (record_matches v) (records v)
      in array_sort (engine_order env) (compare_records env v) filtered)"



text \<open>The two export buttons: what each click hands to the export module.\<close>

datatype export_call = ExportToExcel "pq_record list" | ExportToPDF "pq_record list"

definition onClick_exportExcel :: "js_env \<Rightarrow> records_view \<Rightarrow> export_call" where
  "onClick_exportExcel env v = ExportToExcel (filteredAndSortedRecords env v)"

definition onClick_exportPDF :: "js_env \<Rightarrow> records_view \<Rightarrow> export_call" where
  "onClick_exportPDF env v = ExportToPDF (filteredAndSortedRecords env v)"

text \<open>
  The select of the shipping bill filter: its options carry the values \<^verbatim>\<open>''\<close>,
  \<^verbatim>\<open>'Yes'\<close> and \<^verbatim>\<open>'No'\<close>, and the handler stores
  \<^verbatim>\<open>e.target.value || undefined\<close> under \<^verbatim>\<open>shipping_bill_received\<close>.
\<close>

definition onChange_shippingBill :: "string \<Rightarrow> records_view \<Rightarrow> records_view" where
  "onChange_shippingBill value v =
     v\<lparr>filters := set_prop ''shipping_bill_received''
                     (if value \<noteq> [] then JStr value else JUndefined) (filters v)\<rparr>"

text \<open>
  The two selects of the sort: the values that the options of the first carry, and the
  handlers, which store \<^verbatim>\<open>e.target.value\<close> as the key and as the order.
\<close>

definition sortBy_options :: "string list" where
  "sortBy_options =
     [''createdAt'', ''date'', ''shipperName'', ''buyer'', ''destinationPort'', ''pqStatus'']"

definition onChange_sortBy :: "string \<Rightarrow> records_view \<Rightarrow> records_view" where
  "onChange_sortBy value v = v\<lparr>sortBy := value\<rparr>"

definition onChange_sortOrder :: "sort_order \<Rightarrow> records_view \<Rightarrow> records_view" where
  "onChange_sortOrder value v = v\<lparr>sortOrder := value\<rparr>"

text \<open>\<^verbatim>\<open>handleSectionChange\<close>: the section is set and the two status filters are dropped.\<close>

definition handleSectionChange :: "active_section \<Rightarrow> records_view \<Rightarrow> records_view" where
  "handleSectionChange s v =
     v\<lparr>activeSection := s,
       filters := filter (\<lambda>(k, x). k \<noteq> ''pq_status'' \<and> k \<noteq> ''pq_hardcopy'') (filters v)\<rparr>"


section \<open>Storage (utils/storage)\<close>

text \<open>
  The number that a whole number becomes: itself below \<open>2^53\<close>, else the nearest
  number with 53 binary digits, the even one of two that are equally near, and
  \<open>None\<close>, for infinity, from \<open>2^1024\<close> on.
\<close>

function bit_length :: "int \<Rightarrow> nat" where
  "bit_length n = (if n \<le> 0 then 0 else Suc (bit_length (n div 2)))"
  by pat_completeness auto
termination
  by (relation "measure nat") auto

definition to_double :: "int \<Rightarrow> int option" where
  "to_double n =
     (if n < 2 ^ 53 then Some n
      else
        (let e = bit_length n - 53;
             q = n div 2 ^ e;
             r = n mod 2 ^ e;
             h = 2 ^ (e - 1);
             q' = (if h < r \<or> (r = h \<and> odd q) then q + 1 else q);
             d = q' * 2 ^ e
         in if d < 2 ^ 1024 then Some d else None))"

text \<open>
  \<^verbatim>\<open>parseInt(s, 10)\<close>: leading white space is skipped, a sign is read, then the longest
  run of decimal digits; no digit gives \<^verbatim>\<open>NaN\<close>, and the digits give the number
  that their value becomes. (Beyond twenty digits the language lets an engine read the
  further digits as zeros; the model reads them all. The sign of a zero is not kept.)
\<close>

definition digits_value :: "string \<Rightarrow> int" where
  "digits_value ds = foldl (\<lambda>a c. 10 * a + (of_char c - 48)) 0 ds"

definition parseInt :: "string \<Rightarrow> js_number" where
  "parseInt s =
     (let t = dropWhile is_space s;
          sign = (case t of c # r \<Rightarrow> if c = CHR ''-'' then - 1 else 1 | [] \<Rightarrow> 1);
          u = (case t of c # r \<Rightarrow> if c = CHR ''-'' \<or> c = CHR ''+'' then r else t | [] \<Rightarrow> t);
          ds = takeWhile is_digit u
      in if ds = [] then NaN
         else (case to_double (digits_value ds) of
                 Some d \<Rightarrow> Num (sign * d)
               | None \<Rightarrow> if sign = 1 then Infinity else NegInfinity))"

text \<open>
  \<^verbatim>\<open>ensureNumber\<close>, on the string that \<^verbatim>\<open>PQRecord.invoice_number\<close> is: the branch
  \<^verbatim>\<open>typeof value === 'string'\<close>.
\<close>

definition ensureNumber :: "string \<Rightarrow> js_number" where
  "ensureNumber value = parseInt value"

text \<open>The object handed to \<^verbatim>\<open>insert\<close> and \<^verbatim>\<open>update\<close>: one entry per column.\<close>

record pq_row =
  col_date :: string
  col_shipper_name :: string
  col_buyer :: string
  col_invoice_number :: js_number
  col_commodity :: string
  col_shipping_bill_received :: bool
  col_pq_status :: string
  col_pq_hardcopy :: string
  col_permit_copy_status :: string
  col_destination_port :: string
  col_remarks :: string
  col_files :: "string list"
  col_created_at :: string
  col_updated_at :: string

definition row_of :: "pq_record \<Rightarrow> pq_row" where
  "row_of r =
     \<lparr>col_date = date r,
      col_shipper_name = shipper_name r,
      col_buyer = buyer r,
      col_invoice_number = ensureNumber (invoice_number r),
      col_commodity = commodity r,
      col_shipping_bill_received = shipping_bill_received r,
      col_pq_status = pq_status r,
      col_pq_hardcopy = pq_hardcopy r,
      col_permit_copy_status = permit_copy_status r,
      col_destination_port = destination_port r,
      col_remarks = remarks r,
      col_files = files r,
      col_created_at = created_at r,
      col_updated_at = updated_at r\<rparr>"

text \<open>
  The requests the client sends to the table \<^verbatim>\<open>pq_records\<close>:
  \<^verbatim>\<open>.insert(row)\<close> and \<^verbatim>\<open>.update(row).eq('id', id)\<close>.
\<close>

datatype storage_call = Insert pq_row | Update string pq_row

definition savePQRecord :: "pq_record \<Rightarrow> storage_call" where
  "savePQRecord r = Insert (row_of r)"

definition updatePQRecord :: "string \<Rightarrow> pq_record \<Rightarrow> storage_call" where
  "updatePQRecord i r = Update i (row_of r)"


section \<open>The entry form (PQEntryForm)\<close>

text \<open>A line of the extraction log: a fixed message, or one built from values.\<close>

datatype log_line =
    Fixed string
  | Found_cells nat
  | Detail string string "nat \<times> nat" string
  | Success nat
  | Extracted "(string \<times> string) list"
  | Failure string

record form_state =
  formData :: form_data
  errors :: "(string \<times> string) list"
  extractionLog :: "log_line list"
  isProcessingFile :: bool
  isSubmitting :: bool
  calls :: "storage_call list"

text \<open>\<^verbatim>\<open>obj[key]\<close> on an object of strings, and its truth value.\<close>

definition get_prop :: "(string \<times> string) list \<Rightarrow> string \<Rightarrow> string option" where
  "get_prop obj key = map_of obj key"

definition is_set :: "string option \<Rightarrow> bool" where
  "is_set x = (case x of None \<Rightarrow> False | Some s \<Rightarrow> s \<noteq> [])"

text \<open>\<^verbatim>\<open>delete obj[key]\<close>.\<close>

definition delete_prop :: "string \<Rightarrow> (string \<times> 'v) list \<Rightarrow> (string \<times> 'v) list" where
  "delete_prop k obj = filter (\<lambda>p. fst p \<noteq> k) obj"

subsection \<open>Submitting\<close>

text \<open>\<^verbatim>\<open>!s || !s.trim()\<close>.\<close>

definition blank :: "string \<Rightarrow> bool" where
  "blank s \<longleftrightarrow> s = [] \<or> trim s = []"

definition required_errors :: "form_data \<Rightarrow> (string \<times> string) list" where
  "required_errors f =
     (let e0 = [];
          e1 = (if blank (shipper_name f)
                then set_prop ''shipper_name'' ''Shipper name is required'' e0 else e0);
          e2 = (if blank (buyer f)
                then set_prop ''buyer'' ''Buyer name is required'' e1 else e1);
          e3 = (if blank (invoice_number f)
                then set_prop ''invoice_number'' ''Invoice number is required'' e2 else e2);
          e4 = (if blank (commodity f)
                then set_prop ''commodity'' ''Commodity is required'' e3 else e3);
          e5 = (if blank (destination_port f)
                then set_prop ''destination_port'' ''Destination country is required'' e4 else e4)
      in e5)"

text \<open>
  \<^verbatim>\<open>handleSubmit\<close>. \<open>editRecord\<close> is the prop of that name; \<open>new_id\<close> and \<open>today\<close> are
  what \<^verbatim>\<open>generateId()\<close> and \<^verbatim>\<open>formatDate(new Date())\<close> return. The state after the
  handler has run to its last \<^verbatim>\<open>await\<close>; the request sent is appended to \<open>calls\<close>.
\<close>

definition handleSubmit :: "pq_record option \<Rightarrow> string \<Rightarrow> string \<Rightarrow> form_state \<Rightarrow> form_state" where
  "handleSubmit editRecord new_id today st =
     (let f = formData st;
          newErrors = required_errors f
      in if length newErrors > 0 then st\<lparr>errors := newErrors, isSubmitting := False\<rparr>
         else
           let record =
                 \<lparr>date = date f,
                  shipper_name = trim (shipper_name f),
                  buyer = trim (buyer f),
                  invoice_number = trim (invoice_number f),
                  commodity = trim (commodity f),
                  shipping_bill_received = shipping_bill_received f,
                  pq_status = pq_status f,
                  pq_hardcopy = pq_hardcopy f,
                  permit_copy_status = permit_copy_status f,
                  destination_port = trim (destination_port f),
                  remarks = trim (remarks f),
                  files = files f,
                  created_at = (case editRecord of
                                  Some e \<Rightarrow> if created_at e \<noteq> [] then created_at e else today
                                | None \<Rightarrow> today),
                  updated_at = today,
                  record_id = (case editRecord of
                                 Some e \<Rightarrow> if record_id e \<noteq> [] then record_id e else new_id
                               | None \<Rightarrow> new_id)\<rparr>
           in st\<lparr>errors := newErrors, isSubmitting := True,
                 calls := calls st @
                   [case editRecord of
                      Some e \<Rightarrow> updatePQRecord (record_id record) record
                    | None \<Rightarrow> savePQRecord record]\<rparr>)"

subsection \<open>The invoice number pattern\<close>

text \<open>
  The regular expression \<^verbatim>\<open>/[A-Z]{2,4}\/\d+\/\d{4}-\d{2}/\<close>, matched as a backtracking
  matcher does: each quantifier takes as much as it can and gives back one character at
  a time. \<open>year_part\<close> holds of a text that is \<^verbatim>\<open>\/\d{4}-\d{2}\<close>, \<open>match_tail\<close>
  matches it at the start of the text, \<open>match_digits\<close> is \<^verbatim>\<open>\d+\<close> and
  what follows it, \<open>match_at\<close> is the whole expression at the start of the text, and
  \<open>regex_search\<close> tries every start from the left: \<^verbatim>\<open>text.match(re)\<close>, whose group 1
  is the whole match.
\<close>

definition year_part :: "string \<Rightarrow> bool" where
  "year_part t \<longleftrightarrow>
     length t = 8 \<and> t ! 0 = CHR ''/'' \<and> list_all is_digit (take 4 (drop 1 t)) \<and>
     t ! 5 = CHR ''-'' \<and> list_all is_digit (drop 6 t)"

definition match_tail :: "string \<Rightarrow> string option" where
  "match_tail s = (let t = take 8 s in if year_part t then Some t else None)"

definition match_digits :: "string \<Rightarrow> string option" where
  "match_digits s =
     (let n = length (takeWhile is_digit s)
      in first_some (\<lambda>m. map_option (\<lambda>t. take m s @ t) (match_tail (drop m s)))
           (rev [1 ..< Suc n]))"

definition match_at :: "string \<Rightarrow> string option" where
  "match_at s =
     (let n = length (takeWhile is_upper s)
      in first_some
           (\<lambda>k. if k \<le> n then
                   (case drop k s of
                      c # r \<Rightarrow> if c = CHR ''/''
                               then map_option (\<lambda>t. take k s @ c # t) (match_digits r)
                               else None
                    | [] \<Rightarrow> None)
                 else None)
           [4, 3, 2])"

fun regex_search :: "string \<Rightarrow> string option" where
  "regex_search [] = match_at []"
| "regex_search (c # cs) =
     (case match_at (c # cs) of Some m \<Rightarrow> Some m | None \<Rightarrow> regex_search cs)"

text \<open>
  The pattern itself, as a property of a whole text: two to four capital letters, a
  slash, one or more digits, a slash, four digits, a hyphen, two digits.
\<close>

definition is_invoice_pattern :: "string \<Rightarrow> bool" where
  "is_invoice_pattern s =
     (let ls = takeWhile is_upper s; r1 = dropWhile is_upper s
      in 2 \<le> length ls \<and> length ls \<le> 4 \<and>
         (case r1 of
            [] \<Rightarrow> False
          | c # r2 \<Rightarrow>
              c = CHR ''/'' \<and>
              (let ds = takeWhile is_digit r2; r3 = dropWhile is_digit r2
               in ds \<noteq> [] \<and> year_part r3)))"

definition dateIndicators :: "string list" where
  "dateIndicators = [''DT:'', ''DATE:'', ''dt:'', ''date:'', '' DT'', '' DATE'']"

definition extractInvoiceNumber :: "string \<Rightarrow> string" where
  "extractInvoiceNumber t =
     (let cleanText = trim t
      in case regex_search cleanText of
           Some invoiceMatch \<Rightarrow> invoiceMatch
         | None \<Rightarrow>
             (case first_some
                     (\<lambda>indicator. case indexOf cleanText indicator of
                                     Some index \<Rightarrow> if index > 0
                                                   then Some (trim (take index cleanText))
                                                   else None
                                   | None \<Rightarrow> None)
                     dateIndicators of
                Some r \<Rightarrow> r
              | None \<Rightarrow> cleanText))"

subsection \<open>Reading the sheet\<close>

text \<open>
  \<open>jsonData\<close> is the first sheet as rows of cell texts (\<^verbatim>\<open>sheet_to_json\<close> with
  \<^verbatim>\<open>header: 1, defval: ''\<close>); a cell holds the text that \<^verbatim>\<open>toString()\<close> gives, and
  an empty cell, or one whose value is falsy, holds the empty text. A file that cannot
  be read is the exception the handler catches.
\<close>

datatype workbook = Unreadable string | Sheet "string list list"

text \<open>
  \<open>cellMap\<close>, in the order of its entries, which is row by row. A key \<open>(row, col)\<close>
  stands for the address \<^verbatim>\<open>encode_cell({ r: row, c: col })\<close>, which is one to one,
  and the entry holds the trimmed text of the cell.
\<close>

type_synonym cell_map = "((nat \<times> nat) \<times> string) list"

definition build_cellMap :: "string list list \<Rightarrow> cell_map" where
  "build_cellMap jsonData =
     concat (map (\<lambda>(row, cells).
       concat (map (\<lambda>(col, cellValue).
         if cellValue \<noteq> [] \<and> trim cellValue \<noteq> [] then [((row, col), trim cellValue)] else [])
         (enumerate 0 cells)))
       (enumerate 0 jsonData))"

text \<open>
  The variables of the scan: \<open>extractedData\<close> (an object, filled key by key),
  \<open>extractionDetails\<close>, and the lines appended to the log on the way.
\<close>

record scan =
  extractedData :: "(string \<times> string) list"
  extractionDetails :: "log_line list"
  scanLog :: "log_line list"

definition say :: "string \<Rightarrow> scan \<Rightarrow> scan" where
  "say msg st = st\<lparr>scanLog := scanLog st @ [Fixed msg]\<rparr>"

text \<open>\<^verbatim>\<open>extractedData[key] = v; extractionDetails.push(...)\<close>.\<close>

definition assign :: "string \<Rightarrow> string \<Rightarrow> log_line \<Rightarrow> scan \<Rightarrow> scan" where
  "assign key v line st =
     st\<lparr>extractedData := set_prop key v (extractedData st),
        extractionDetails := extractionDetails st @ [line]\<rparr>"

subsection \<open>Shipper and buyer\<close>

definition shipper_candidate :: "cell_map \<Rightarrow> nat \<Rightarrow> nat \<Rightarrow> (string \<times> nat \<times> nat) option" where
  "shipper_candidate cm row col =
     first_some
       (\<lambda>i. case map_of cm (row + i, col) of
               None \<Rightarrow> None
             | Some companyName \<Rightarrow>
                 if length companyName > 5 \<and>
                    \<not> str_includes (toLowerCase companyName) ''consignee''
                 then Some (companyName, (row + i, col)) else None)
       [1, 2, 3]"

definition extract_shipper :: "cell_map \<Rightarrow> scan \<Rightarrow> scan" where
  "extract_shipper cm st =
     (case find (\<lambda>(a, v). str_includes (toLowerCase v) ''exporter'') cm of
        None \<Rightarrow> st
      | Some ((row, col), v) \<Rightarrow>
          (case shipper_candidate cm row col of
             None \<Rightarrow> st
           | Some (companyName, a) \<Rightarrow>
               assign ''shipper_name'' companyName (Detail ''Shipper'' companyName a []) st))"

definition buyer_candidate :: "cell_map \<Rightarrow> nat \<Rightarrow> nat \<Rightarrow> (string \<times> nat \<times> nat) option" where
  "buyer_candidate cm row col =
     first_some
       (\<lambda>i. case map_of cm (row + i, col) of
               None \<Rightarrow> None
             | Some buyerName \<Rightarrow>
                 if length buyerName > 3 \<and>
                    \<not> str_includes (toLowerCase buyerName) ''consignee'' \<and>
                    \<not> str_includes (toLowerCase buyerName) '':''
                 then Some (buyerName, (row + i, col)) else None)
       [0, 1, 2, 3]"

definition extract_buyer :: "cell_map \<Rightarrow> scan \<Rightarrow> scan" where
  "extract_buyer cm st =
     (case find (\<lambda>(a, v). str_includes (toLowerCase v) ''consignee'') cm of
        None \<Rightarrow> st
      | Some ((row, col), v) \<Rightarrow>
          (case buyer_candidate cm row col of
             None \<Rightarrow> st
           | Some (buyerName, a) \<Rightarrow>
               assign ''buyer'' buyerName (Detail ''Buyer'' buyerName a []) st))"

text \<open>The range M10:X10: row 9, columns 12 to 23.\<close>

definition buyer_in_range :: "cell_map \<Rightarrow> scan \<Rightarrow> scan" where
  "buyer_in_range cm st =
     (if \<not> is_set (get_prop (extractedData st) ''buyer'') then
        (let st1 = say ''Searching buyer in range M10:X10...'' st
         in case first_some
                   (\<lambda>col. case map_of cm (9, col) of
                             None \<Rightarrow> None
                           | Some v \<Rightarrow>
                               if length v > 5 \<and>
                                  \<not> str_includes (toLowerCase v) ''invoice'' \<and>
                                  \<not> str_includes (toLowerCase v) ''date'' \<and>
                                  \<not> str_includes (toLowerCase v) ''no.'' \<and>
                                  \<not> str_includes (toLowerCase v) ''ref''
                               then Some (v, (9, col)) else None)
                   [12 ..< 24] of
              None \<Rightarrow> st1
            | Some (v, a) \<Rightarrow> assign ''buyer'' v (Detail ''Buyer'' v a ''M10:X10 range'') st1)
      else st)"

subsection \<open>Invoice number\<close>

text \<open>
  One candidate cell: its text is cleaned by \<open>extractInvoiceNumber\<close> and taken when the
  cleaned text matches the pattern.
\<close>

definition invoice_candidate :: "cell_map \<Rightarrow> nat \<times> nat \<Rightarrow> (string \<times> (nat \<times> nat) \<times> string) option" where
  "invoice_candidate cm a =
     (case map_of cm a of
        None \<Rightarrow> None
      | Some invoiceValue \<Rightarrow>
          (let cleanInvoiceNumber = extractInvoiceNumber invoiceValue
           in if regex_search cleanInvoiceNumber \<noteq> None
              then Some (cleanInvoiceNumber, a, invoiceValue) else None))"

definition assign_invoice :: "(string \<times> (nat \<times> nat) \<times> string) option \<Rightarrow> scan \<Rightarrow> scan" where
  "assign_invoice found st =
     (case found of
        None \<Rightarrow> st
      | Some (cleanInvoiceNumber, a, invoiceValue) \<Rightarrow>
          assign ''invoice_number'' cleanInvoiceNumber
            (Detail ''Invoice'' cleanInvoiceNumber a invoiceValue) st)"

text \<open>The cells to the right of a label, then, when none gave a number, the cells below.\<close>

definition invoice_beside :: "cell_map \<Rightarrow> nat \<Rightarrow> nat \<Rightarrow> scan \<Rightarrow> scan" where
  "invoice_beside cm row col st =
     assign_invoice
       (first_some (\<lambda>colOffset. invoice_candidate cm (row, col + colOffset)) [1, 2, 3, 4, 5])
       st"

definition invoice_below :: "cell_map \<Rightarrow> nat \<Rightarrow> nat \<Rightarrow> scan \<Rightarrow> scan" where
  "invoice_below cm row col st =
     (if \<not> is_set (get_prop (extractedData st) ''invoice_number'')
      then assign_invoice
             (first_some (\<lambda>rowOffset. invoice_candidate cm (row + rowOffset, col)) [1, 2, 3])
             st
      else st)"

fun invoice_scan :: "cell_map \<Rightarrow> cell_map \<Rightarrow> scan \<Rightarrow> scan" where
  "invoice_scan cm [] st = st"
| "invoice_scan cm (((row, col), v) # rest) st =
     (if str_includes (toLowerCase v) ''invoice'' \<and>
         \<not> str_includes (toLowerCase v) ''proforma'' then
        (let st2 = invoice_below cm row col (invoice_beside cm row col st)
         in if is_set (get_prop (extractedData st2) ''invoice_number'') then st2
            else invoice_scan cm rest st2)
      else invoice_scan cm rest st)"

text \<open>The area from M4 on: rows 3 to 10, columns 12 to 20, row by row.\<close>

definition invoice_in_area :: "cell_map \<Rightarrow> scan \<Rightarrow> scan" where
  "invoice_in_area cm st =
     (if \<not> is_set (get_prop (extractedData st) ''invoice_number'') then
        (let st1 = say ''Searching invoice number in M4+ area...'' st
         in assign_invoice
              (first_some
                 (\<lambda>row. first_some (\<lambda>col. invoice_candidate cm (row, col)) [12 ..< 21])
                 [3 ..< 11])
              st1)
      else st)"

subsection \<open>Commodity\<close>

definition commodityKeywords :: "string list" where
  "commodityKeywords =
     [''chillies'', ''turmeric'', ''rice'', ''spices'', ''jaggery'', ''onions'', ''sannam'']"

definition commodity_cell :: "nat \<times> nat \<Rightarrow> string \<Rightarrow> scan \<Rightarrow> scan" where
  "commodity_cell a v st =
     (let cellValue = toLowerCase v
      in if list_ex (\<lambda>keyword. str_includes cellValue keyword) commodityKeywords
         then assign ''commodity'' v (Detail ''Commodity'' v a []) st
         else st)"

fun commodity_scan :: "cell_map \<Rightarrow> scan \<Rightarrow> scan" where
  "commodity_scan [] st = st"
| "commodity_scan ((a, v) # rest) st =
     (let st1 = commodity_cell a v st
      in if is_set (get_prop (extractedData st1) ''commodity'') then st1
         else commodity_scan rest st1)"

subsection \<open>Destination country\<close>

definition destination_ok :: "string \<Rightarrow> bool" where
  "destination_ok destinationValue \<longleftrightarrow>
     length destinationValue > 2 \<and>
     \<not> str_includes (toLowerCase destinationValue) ''destination'' \<and>
     \<not> str_includes (toLowerCase destinationValue) ''country'' \<and>
     \<not> str_includes (toLowerCase destinationValue) ''origin''"

definition clean_destination :: "string \<Rightarrow> string" where
  "clean_destination destinationValue =
     (let cleanDestination = toUpperCase destinationValue
      in if str_includes cleanDestination ''SRI LANKA'' \<or> str_includes cleanDestination ''SRILANKA''
         then ''SRI LANKA''
         else if str_includes cleanDestination ''COLOMBO'' then ''SRI LANKA''
         else cleanDestination)"

text \<open>The cells to the right of a label, then, when none gave a country, the cell below.\<close>

definition destination_beside :: "cell_map \<Rightarrow> nat \<Rightarrow> nat \<Rightarrow> scan \<Rightarrow> scan" where
  "destination_beside cm row col st =
     (case first_some
             (\<lambda>colOffset. case map_of cm (row, col + colOffset) of
                             None \<Rightarrow> None
                           | Some destinationValue \<Rightarrow>
                               if destination_ok destinationValue
                               then Some (destinationValue, (row, col + colOffset))
                               else None)
             [1, 2, 3, 4, 5] of
        None \<Rightarrow> st
      | Some (destinationValue, a) \<Rightarrow>
          assign ''destination_port'' (clean_destination destinationValue)
            (Detail ''Destination'' (clean_destination destinationValue) a ''from'') st)"

definition destination_below :: "cell_map \<Rightarrow> nat \<Rightarrow> nat \<Rightarrow> scan \<Rightarrow> scan" where
  "destination_below cm row col st =
     (if \<not> is_set (get_prop (extractedData st) ''destination_port'') then
        (case map_of cm (row + 1, col) of
           None \<Rightarrow> st
         | Some destinationValue \<Rightarrow>
             if destination_ok destinationValue
             then assign ''destination_port'' (clean_destination destinationValue)
                    (Detail ''Destination'' (clean_destination destinationValue)
                       (row + 1, col) ''below'')
                    st
             else st)
      else st)"

fun destination_scan :: "cell_map \<Rightarrow> cell_map \<Rightarrow> scan \<Rightarrow> scan" where
  "destination_scan cm [] st = st"
| "destination_scan cm (((row, col), v) # rest) st =
     (let cellValue = toLowerCase v
      in if str_includes cellValue ''final destination'' \<or>
            str_includes cellValue ''country of final destination'' \<or>
            str_includes cellValue ''destination country'' then
           (let st2 = destination_below cm row col (destination_beside cm row col st)
            in if is_set (get_prop (extractedData st2) ''destination_port'') then st2
               else destination_scan cm rest st2)
         else destination_scan cm rest st)"

definition destinationCountries :: "string list" where
  "destinationCountries =
     [''sri lanka'', ''srilanka'', ''bangladesh'', ''nepal'', ''pakistan'', ''myanmar'',
      ''maldives'']"

definition fallback_cell :: "nat \<times> nat \<Rightarrow> string \<Rightarrow> scan \<Rightarrow> scan" where
  "fallback_cell a cellValue st =
     (case find (\<lambda>country. str_includes cellValue country) destinationCountries of
        None \<Rightarrow> st
      | Some country \<Rightarrow>
          (let d = (if str_includes cellValue ''sri lanka'' \<or> str_includes cellValue ''srilanka''
                    then ''SRI LANKA'' else toUpperCase country)
           in assign ''destination_port'' d (Detail ''Destination'' d a ''fallback search'') st))"

fun fallback_scan :: "cell_map \<Rightarrow> scan \<Rightarrow> scan" where
  "fallback_scan [] st = st"
| "fallback_scan ((a, v) # rest) st =
     (let cellValue = toLowerCase v
      in if str_includes cellValue ''origin'' \<or> str_includes cellValue ''goods'' \<or>
            str_includes cellValue ''country of origin''
         then fallback_scan rest st
         else
           (let st1 = fallback_cell a cellValue st
            in if is_set (get_prop (extractedData st1) ''destination_port'') then st1
               else fallback_scan rest st1))"

text \<open>
  The fallback is guarded by \<^verbatim>\<open>!extractedData.destinationPort\<close>, the key in camel case,
  while every assignment writes \<^verbatim>\<open>destination_port\<close>.
\<close>

definition destination_fallback :: "cell_map \<Rightarrow> scan \<Rightarrow> scan" where
  "destination_fallback cm st =
     (if \<not> is_set (get_prop (extractedData st) ''destinationPort'') then
        fallback_scan cm
          (say ''Fallback search for destination countries (avoiding origin)...'' st)
      else st)"

subsection \<open>The whole extraction\<close>

text \<open>
  \<^verbatim>\<open>{ ...prev, ...extractedData }\<close> on the form: \<open>extractedData\<close> is a
  \<^verbatim>\<open>Partial\<close> of the form's type and holds texts, so an entry replaces the text field
  of its name.
\<close>

definition form_assign :: "string \<Rightarrow> string \<Rightarrow> form_data \<Rightarrow> form_data" where
  "form_assign key v f =
     (if key = ''date'' then f\<lparr>date := v\<rparr>
      else if key = ''shipper_name'' then f\<lparr>shipper_name := v\<rparr>
      else if key = ''buyer'' then f\<lparr>buyer := v\<rparr>
      else if key = ''invoice_number'' then f\<lparr>invoice_number := v\<rparr>
      else if key = ''commodity'' then f\<lparr>commodity := v\<rparr>
      else if key = ''pq_status'' then f\<lparr>pq_status := v\<rparr>
      else if key = ''pq_hardcopy'' then f\<lparr>pq_hardcopy := v\<rparr>
      else if key = ''permit_copy_status'' then f\<lparr>permit_copy_status := v\<rparr>
      else if key = ''destination_port'' then f\<lparr>destination_port := v\<rparr>
      else if key = ''remarks'' then f\<lparr>remarks := v\<rparr>
      else if key = ''created_at'' then f\<lparr>created_at := v\<rparr>
      else if key = ''updated_at'' then f\<lparr>updated_at := v\<rparr>
      else f)"

definition merge_extracted :: "(string \<times> string) list \<Rightarrow> form_data \<Rightarrow> form_data" where
  "merge_extracted e f = foldl (\<lambda>g (key, v). form_assign key v g) f e"

definition run_scan :: "string list list \<Rightarrow> scan" where
  "run_scan jsonData =
     (let cellMap = build_cellMap jsonData;
          s0 = \<lparr>extractedData = [], extractionDetails = [],
                scanLog = [Fixed ''Starting precise data extraction from invoice...'',
                           Fixed ''Analyzing sheet'',
                           Found_cells (length cellMap)]\<rparr>;
          s1 = extract_shipper cellMap
                 (say ''Searching for Exporter/Shipper information...'' s0);
          s2 = extract_buyer cellMap
                 (say ''Searching for Buyer/Consignee information...'' s1);
          s3 = buyer_in_range cellMap s2;
          s4 = invoice_scan cellMap cellMap
                 (say ''Searching for Invoice Number (excluding date)...'' s3);
          s5 = invoice_in_area cellMap s4;
          s6 = commodity_scan cellMap
                 (say ''Searching for Commodity information...'' s5);
          s7 = destination_scan cellMap cellMap
                 (say ''Searching for Final Destination Country (NOT Origin)...'' s6);
          s8 = destination_fallback cellMap s7
      in s8)"

definition no_patterns_message :: string where
  "no_patterns_message =
     ''No recognizable data patterns found. Please check the Excel file structure.''"

definition extractDataFromExcel :: "workbook \<Rightarrow> form_state \<Rightarrow> form_state" where
  "extractDataFromExcel wb st =
     (case wb of
        Unreadable msg \<Rightarrow>
          st\<lparr>extractionLog :=
               [Fixed ''Starting precise data extraction from invoice...'', Failure msg],
             errors := set_prop ''file''
               ''Error processing Excel file. Please check the file format and try again.''
               (errors st),
             isProcessingFile := False\<rparr>
      | Sheet jsonData \<Rightarrow>
          (let s = run_scan jsonData;
               lg = scanLog s @ extractionDetails s
           in if length (extractedData s) > 0 then
                st\<lparr>formData := merge_extracted (extractedData s) (formData st),
                   extractionLog := lg @ [Success (length (extractedData s)),
                                          Extracted (extractedData s)],
                   isProcessingFile := False\<rparr>
              else
                st\<lparr>extractionLog := lg @ [Fixed no_patterns_message],
                   errors := set_prop ''file''
                     ''Unable to extract data from this Excel file. Please ensure it contains invoice information with proper formatting.''
                     (errors st),
                   isProcessingFile := False\<rparr>))"

definition ends_with :: "string \<Rightarrow> string \<Rightarrow> bool" where
  "ends_with s suffix \<longleftrightarrow> starts_with (rev s) (rev suffix)"

definition handleFileUpload :: "string \<Rightarrow> workbook \<Rightarrow> form_state \<Rightarrow> form_state" where
  "handleFileUpload name wb st =
     (let st1 = st\<lparr>extractionLog := [], errors := delete_prop ''file'' (errors st)\<rparr>
      in if ends_with name ''.xlsx'' \<or> ends_with name ''.xls''
         then extractDataFromExcel wb st1 else st1)"


section \<open>Sample data\<close>

text \<open>The row a request carries.\<close>

definition sent_row :: "storage_call \<Rightarrow> pq_row" where
  "sent_row c = (case c of Insert row \<Rightarrow> row | Update i row \<Rightarrow> row)"

definition sample_completed :: pq_record where
  "sample_completed =
     \<lparr>date = ''2025-07-06'', shipper_name = ''Acme Exports'', buyer = ''Lanka Imports'',
      invoice_number = ''RTC/037/2025-26'', commodity = ''Dry Chillies'',
      shipping_bill_received = True, pq_status = ''Received'', pq_hardcopy = ''Received'',
      permit_copy_status = ''Not Required'', destination_port = ''SRI LANKA'', remarks = [],
      files = [], created_at = ''2025-07-06'', updated_at = ''2025-07-06'',
      record_id = ''r1''\<rparr>"

definition sample_pending :: pq_record where
  "sample_pending =
     \<lparr>date = ''2025-08-01'', shipper_name = ''Spice Traders'', buyer = ''Dhaka Foods'',
      invoice_number = ''4711'', commodity = ''Turmeric'',
      shipping_bill_received = False, pq_status = ''Pending'', pq_hardcopy = ''Not Received'',
      permit_copy_status = ''Not Received'', destination_port = ''BANGLADESH'', remarks = [],
      files = [], created_at = ''2025-08-01'', updated_at = ''2025-08-01'',
      record_id = ''r2''\<rparr>"

definition sample_env :: js_env where
  "sample_env =
     \<lparr>localeCompare = (\<lambda>a b. if a = b then 0 else if str_le a b then - 1 else 1),
      getTime = (\<lambda>s. Some (digits_value (filter is_digit s))),
      engine_order = (\<lambda>cmp xs. [0 ..< length xs])\<rparr>"

definition sample_view :: records_view where
  "sample_view =
     \<lparr>records = [sample_completed, sample_pending], filters = [], searchTerm = [],
      sortBy = ''date'', sortOrder = Desc, activeSection = Sec_all,
      dateRange_start = [], dateRange_end = []\<rparr>"


text \<open>The form as the component first renders it; \<open>today\<close> is \<^verbatim>\<open>formatDate(new Date())\<close>.\<close>

definition initial_formData :: "string \<Rightarrow> form_data" where
  "initial_formData today =
     \<lparr>date = today, shipper_name = [], buyer = [], invoice_number = [], commodity = [],
      shipping_bill_received = False, pq_status = ''Pending'', pq_hardcopy = ''Not Received'',
      permit_copy_status = ''Not Required'', destination_port = [], remarks = [], files = [],
      created_at = today, updated_at = today\<rparr>"

definition initial_state :: "string \<Rightarrow> form_state" where
  "initial_state today =
     \<lparr>formData = initial_formData today, errors = [], extractionLog = [],
      isProcessingFile = False, isSubmitting = False, calls = []\<rparr>"

definition sample_filled :: form_state where
  "sample_filled =
     (initial_state ''2025-07-06'')
       \<lparr>formData := (initial_formData ''2025-07-06'')
          \<lparr>shipper_name := ''Acme Exports '', buyer := ''Lanka Imports'',
           invoice_number := ''RTC/037/2025-26'', commodity := ''Dry Chillies'',
           destination_port := ''SRI LANKA''\<rparr>\<rparr>"


section \<open>Notions for the properties\<close>

text \<open>
  The criteria of the view, said of a record: the search term, when there is one, occurs
  in one of the texts of the record, whatever the case of the letters; every filter
  that is set equals the property of its name; the date lies in the date range, as far
  as the range is set; and the record belongs to the active section.
\<close>

definition text_fields :: "pq_record \<Rightarrow> string list" where
  "text_fields r =
     [record_id r, date r, shipper_name r, buyer r, invoice_number r, commodity r,
      pq_status r, pq_hardcopy r, permit_copy_status r, destination_port r, remarks r,
      created_at r, updated_at r]"

definition meets_criteria :: "records_view \<Rightarrow> pq_record \<Rightarrow> bool" where
  "meets_criteria v r \<longleftrightarrow>
     (searchTerm v = [] \<or>
      (\<exists>s \<in> set (text_fields r). str_includes (toLowerCase s) (toLowerCase (searchTerm v)))) \<and>
     (\<forall>(key, x) \<in> set (filters v). truthy x \<longrightarrow> strict_eq (record_prop r key) x) \<and>
     (dateRange_start v = [] \<or> str_le (dateRange_start v) (date r)) \<and>
     (dateRange_end v = [] \<or> str_le (date r) (dateRange_end v)) \<and>
     (case activeSection v of
        Sec_all \<Rightarrow> True
      | Sec_pending \<Rightarrow>
          \<not> (shipping_bill_received r \<and> pq_status r = ''Received'' \<and>
             (permit_copy_status r = ''Received'' \<or> permit_copy_status r = ''Not Required''))
      | Sec_received \<Rightarrow>
          shipping_bill_received r \<and> pq_status r = ''Received'' \<and>
            (permit_copy_status r = ''Received'' \<or> permit_copy_status r = ''Not Required'')
      | Sec_hardcopyMissing \<Rightarrow> pq_hardcopy r = [] \<or> pq_hardcopy r = ''Not Received'')"

text \<open>
  The sort order, said of two records: \<open>a\<close> may stand before \<open>b\<close>. Under the sort key
  \<open>date\<close> the time of \<open>a\<close> is not after that of \<open>b\<close> (ascending) or not before it
  (descending); under a sort key that names a text of the record the text of \<open>a\<close> does
  not follow that of \<open>b\<close> in the order of \<open>localeCompare\<close>, or does not precede it.
  Records without a time, or without a text under the key, are in order either way.
\<close>

definition in_sort_order :: "js_env \<Rightarrow> records_view \<Rightarrow> pq_record \<Rightarrow> pq_record \<Rightarrow> bool" where
  "in_sort_order env v a b \<longleftrightarrow>
     (if sortBy v = ''date'' then
        (case (getTime env (date a), getTime env (date b)) of
           (Some x, Some y) \<Rightarrow> if sortOrder v = Asc then x \<le> y else y \<le> x
         | _ \<Rightarrow> True)
      else
        (case (record_prop a (sortBy v), record_prop b (sortBy v)) of
           (JStr x, JStr y) \<Rightarrow>
             if sortOrder v = Asc then localeCompare env x y \<le> 0 else 0 \<le> localeCompare env x y
         | _ \<Rightarrow> True))"

text \<open>
  The lines of the log that tell how far the scan has come; they are the same for
  every sheet.
\<close>

definition progress_messages :: "string list" where
  "progress_messages =
     [''Starting precise data extraction from invoice...'',
      ''Analyzing sheet'',
      ''Searching for Exporter/Shipper information...'',
      ''Searching for Buyer/Consignee information...'',
      ''Searching buyer in range M10:X10...'',
      ''Searching for Invoice Number (excluding date)...'',
      ''Searching invoice number in M4+ area...'',
      ''Searching for Commodity information...'',
      ''Searching for Final Destination Country (NOT Origin)...'',
      ''Fallback search for destination countries (avoiding origin)...'']"

text \<open>The field that a line of the details is about, by the word the line starts with.\<close>

definition detail_keys :: "(string \<times> string) list" where
  "detail_keys =
     [(''Shipper'', ''shipper_name''), (''Buyer'', ''buyer''), (''Invoice'', ''invoice_number''),
      (''Commodity'', ''commodity''), (''Destination'', ''destination_port'')]"

text \<open>
  What holds of the variables of the scan at every step: no key of \<open>extractedData\<close>
  occurs twice, the lines logged so far are progress lines and the count of the cells,
  and every line of the details is about a field that \<open>extractedData\<close> holds.
\<close>

definition scan_inv :: "scan \<Rightarrow> bool" where
  "scan_inv st \<longleftrightarrow>
     distinct (map fst (extractedData st)) \<and>
     (\<forall>l \<in> set (scanLog st). l \<in> Fixed ` set progress_messages \<or> (\<exists>n. l = Found_cells n)) \<and>
     (\<forall>l \<in> set (extractionDetails st).
        \<exists>label value a note key. l = Detail label value a note \<and>
          map_of detail_keys label = Some key \<and> key \<in> set (map fst (extractedData st)))"

text \<open>
  The invoice number of the scan, when there is one, is a text of the pattern, and it is
  the match that the pattern finds in the text of a cell.
\<close>

definition invoice_ok :: "cell_map \<Rightarrow> scan \<Rightarrow> bool" where
  "invoice_ok cm st \<longleftrightarrow>
     (case get_prop (extractedData st) ''invoice_number'' of
        None \<Rightarrow> True
      | Some v \<Rightarrow> is_invoice_pattern v \<and>
                  (\<exists>a raw. map_of cm a = Some raw \<and> regex_search (trim raw) = Some v))"


text \<open>Sample sheets.\<close>

definition sheet_two_countries :: "string list list" where
  "sheet_two_countries = [[''Nepal Traders''], [''Final Destination'', ''Dubai'']]"


definition sheet_invoice :: "string list list" where
  "sheet_invoice = [[''Invoice No'', ''RTC/037/2025-26 DT: 01.02.2025'']]"



definition empty_scan :: scan where
  "empty_scan = \<lparr>extractedData = [], extractionDetails = [], scanLog = []\<rparr>"


section \<open>Properties\<close>

text \<open>
  C10. \<open>isDelayed\<close> holds exactly when the status is \<open>Pending\<close> and strictly more than
  48 hours (172800000 ms) lie between the creation time and the reading of the clock;
  so it is false for every other status, however old the record.
\<close>

theorem isDelayed_iff:
  "isDelayed now createdAt status \<longleftrightarrow> status = ''Pending'' \<and> 48 * 3600000 < now - createdAt"
  by (auto simp: isDelayed_def Let_def field_simps)

theorem isDelayed_iff_witness:
  "isDelayed 172800001 0 ''Pending'' \<and> \<not> isDelayed 172800000 0 ''Pending''
   \<and> \<not> isDelayed 999999999999 0 ''Received''"
  using isDelayed_iff [of 172800001 0 "''Pending''"]
    isDelayed_iff [of 172800000 0 "''Pending''"]
    isDelayed_iff [of 999999999999 0 "''Received''"]
  by simp

subsection \<open>Sorting and filtering\<close>

lemma mset_insert_by: "mset (insert_by cmp x ys) = add_mset x (mset ys)"
  by (induction ys) auto

lemma set_insert_by: "set (insert_by cmp x ys) = insert x (set ys)"
  by (induction ys) auto

lemma stable_sort_Cons: "stable_sort cmp (x # xs) = insert_by cmp x (stable_sort cmp xs)"
  by (simp add: stable_sort_def)

lemma mset_stable_sort: "mset (stable_sort cmp xs) = mset xs"
  by (induction xs) (simp_all add: stable_sort_def mset_insert_by)

lemma set_stable_sort: "set (stable_sort cmp xs) = set xs"
  using mset_stable_sort [of cmp xs] by (metis set_mset_mset)

lemma mset_reorder: "mset (reorder p xs) = mset xs"
proof (cases "sort p = [0 ..< length xs]")
  case True
  then have "mset p = mset [0 ..< length xs]" by (metis mset_sort)
  then have "image_mset (\<lambda>i. xs ! i) (mset p) = image_mset (\<lambda>i. xs ! i) (mset [0 ..< length xs])"
    by simp
  then have "mset (map (\<lambda>i. xs ! i) p) = mset (map (\<lambda>i. xs ! i) [0 ..< length xs])"
    by simp
  also have "map (\<lambda>i. xs ! i) [0 ..< length xs] = xs" by (rule map_nth)
  finally show ?thesis using True by (simp add: reorder_def)
next
  case False
  then show ?thesis by (simp add: reorder_def)
qed

lemma mset_array_sort: "mset (array_sort engine cmp xs) = mset xs"
  by (simp add: array_sort_def mset_stable_sort mset_reorder)

lemma array_sort_Nil: "array_sort engine cmp [] = []"
  using mset_array_sort [of engine cmp "[]"] by simp

text \<open>What a consistent comparator gives on the elements it is consistent for.\<close>

lemma consistentD:
  assumes c: "consistent_comparator cmp xs"
    and a: "a \<in> set xs" and b: "b \<in> set xs"
  shows "cmp a b \<noteq> NaN"
    and "sort_compare (cmp a a) = 0"
    and "sort_compare (cmp a b) = 0 \<Longrightarrow> sort_compare (cmp b a) = 0"
  using c a b unfolding consistent_comparator_def list_all_iff by (blast, blast, meson)

lemma consistent_transD:
  assumes c: "consistent_comparator cmp xs"
    and a: "a \<in> set xs" and b: "b \<in> set xs" and d: "d \<in> set xs"
  shows "sort_compare (cmp a b) = 0 \<Longrightarrow> sort_compare (cmp b d) = 0 \<Longrightarrow> sort_compare (cmp a d) = 0"
    and "sort_compare (cmp a b) < 0 \<Longrightarrow> sort_compare (cmp b d) < 0 \<Longrightarrow> sort_compare (cmp a d) < 0"
    and "sort_compare (cmp a b) > 0 \<Longrightarrow> sort_compare (cmp b d) > 0 \<Longrightarrow> sort_compare (cmp a d) > 0"
proof -
  from c a b d have t:
    "(if sort_compare (cmp a b) = 0 \<and> sort_compare (cmp b d) = 0
         then sort_compare (cmp a d) = 0 else True) \<and>
        (if sort_compare (cmp a b) < 0 \<and> sort_compare (cmp b d) < 0
         then sort_compare (cmp a d) < 0 else True) \<and>
        (if sort_compare (cmp a b) > 0 \<and> sort_compare (cmp b d) > 0
         then sort_compare (cmp a d) > 0 else True)"
    unfolding consistent_comparator_def list_all_iff by blast
  show "sort_compare (cmp a b) = 0 \<Longrightarrow> sort_compare (cmp b d) = 0 \<Longrightarrow> sort_compare (cmp a d) = 0"
    using t by (simp split: if_splits)
  show "sort_compare (cmp a b) < 0 \<Longrightarrow> sort_compare (cmp b d) < 0 \<Longrightarrow> sort_compare (cmp a d) < 0"
    using t by (simp split: if_splits)
  show "sort_compare (cmp a b) > 0 \<Longrightarrow> sort_compare (cmp b d) > 0 \<Longrightarrow> sort_compare (cmp a d) > 0"
    using t by (simp split: if_splits)
qed

lemma consistent_flip:
  assumes c: "consistent_comparator cmp xs"
    and a: "a \<in> set xs" and b: "b \<in> set xs"
    and gt: "sort_compare (cmp a b) > 0"
  shows "sort_compare (cmp b a) < 0"
proof (rule ccontr)
  assume "\<not> sort_compare (cmp b a) < 0"
  then consider "sort_compare (cmp b a) = 0" | "sort_compare (cmp b a) > 0" by linarith
  then show False
  proof cases
    case 1
    from consistentD(3) [OF c b a 1] gt show False by simp
  next
    case 2
    from consistent_transD(3) [OF c a b a gt 2] consistentD(2) [OF c a a] show False by simp
  qed
qed

lemma consistent_flip':
  assumes c: "consistent_comparator cmp xs"
    and a: "a \<in> set xs" and b: "b \<in> set xs"
    and lt: "sort_compare (cmp a b) < 0"
  shows "sort_compare (cmp b a) > 0"
proof (rule ccontr)
  assume "\<not> sort_compare (cmp b a) > 0"
  then consider "sort_compare (cmp b a) = 0" | "sort_compare (cmp b a) < 0" by linarith
  then show False
  proof cases
    case 1
    from consistentD(3) [OF c b a 1] lt show False by simp
  next
    case 2
    from consistent_transD(2) [OF c a b a lt 2] consistentD(2) [OF c a a] show False by simp
  qed
qed

lemma consistent_total:
  assumes c: "consistent_comparator cmp xs"
    and a: "a \<in> set xs" and b: "b \<in> set xs"
  shows "sort_compare (cmp a b) \<le> 0 \<or> sort_compare (cmp b a) \<le> 0"
  using consistent_flip [OF c a b] by force

lemma consistent_le_trans:
  assumes c: "consistent_comparator cmp xs"
    and a: "a \<in> set xs" and b: "b \<in> set xs" and d: "d \<in> set xs"
    and ab: "sort_compare (cmp a b) \<le> 0" and bd: "sort_compare (cmp b d) \<le> 0"
  shows "sort_compare (cmp a d) \<le> 0"
proof (rule ccontr)
  assume "\<not> sort_compare (cmp a d) \<le> 0"
  then have ad: "sort_compare (cmp a d) > 0" by simp
  then have da: "sort_compare (cmp d a) < 0" by (rule consistent_flip [OF c a d])
  from ab consider "sort_compare (cmp a b) < 0" | "sort_compare (cmp a b) = 0" by linarith
  then show False
  proof cases
    case 1
    from consistent_transD(2) [OF c d a b da 1] have db: "sort_compare (cmp d b) < 0" .
    from consistent_flip' [OF c d b db] bd show False by simp
  next
    case 2
    from bd consider "sort_compare (cmp b d) < 0" | "sort_compare (cmp b d) = 0" by linarith
    then show False
    proof cases
      case 1
      from consistent_transD(2) [OF c b d a 1 da] have "sort_compare (cmp b a) < 0" .
      with consistentD(3) [OF c a b 2] show False by simp
    next
      case 2
      from consistent_transD(1) [OF c a b d \<open>sort_compare (cmp a b) = 0\<close> 2] ad
      show False by simp
    qed
  qed
qed

lemma sorted_insert_by:
  assumes c: "consistent_comparator cmp zs"
    and x: "x \<in> set zs" and ys: "set ys \<subseteq> set zs"
    and srt: "sorted_wrt (\<lambda>a b. sort_compare (cmp a b) \<le> 0) ys"
  shows "sorted_wrt (\<lambda>a b. sort_compare (cmp a b) \<le> 0) (insert_by cmp x ys)"
  using ys srt
proof (induction ys)
  case Nil
  then show ?case by simp
next
  case (Cons y ys)
  from Cons.prems have y: "y \<in> set zs" and sub: "set ys \<subseteq> set zs" by auto
  show ?case
  proof (cases "sort_compare (cmp x y) \<le> 0")
    case True
    have "sort_compare (cmp x z) \<le> 0" if "z \<in> set ys" for z
    proof -
      from that sub have z: "z \<in> set zs" by blast
      from Cons.prems(2) that have "sort_compare (cmp y z) \<le> 0" by simp
      with consistent_le_trans [OF c x y z True] show ?thesis by simp
    qed
    with True Cons.prems(2) show ?thesis by simp
  next
    case False
    with consistent_total [OF c x y] have yx: "sort_compare (cmp y x) \<le> 0" by blast
    from Cons.IH [OF sub] Cons.prems(2)
    have "sorted_wrt (\<lambda>a b. sort_compare (cmp a b) \<le> 0) (insert_by cmp x ys)" by simp
    with False yx Cons.prems(2) show ?thesis by (simp add: set_insert_by)
  qed
qed

lemma sorted_stable_sort:
  assumes c: "consistent_comparator cmp zs" and sub: "set xs \<subseteq> set zs"
  shows "sorted_wrt (\<lambda>a b. sort_compare (cmp a b) \<le> 0) (stable_sort cmp xs)"
  using sub
proof (induction xs)
  case Nil
  then show ?case by (simp add: stable_sort_def)
next
  case (Cons x xs)
  then have x: "x \<in> set zs" and s: "set (stable_sort cmp xs) \<subseteq> set zs"
    by (simp_all add: set_stable_sort)
  from Cons have "sorted_wrt (\<lambda>a b. sort_compare (cmp a b) \<le> 0) (stable_sort cmp xs)" by simp
  from sorted_insert_by [OF c x s this] show ?case by (simp only: stable_sort_Cons)
qed

lemma filter_insert_by:
  assumes c: "consistent_comparator cmp zs"
    and x: "x \<in> set zs" and a: "a \<in> set zs" and ys: "set ys \<subseteq> set zs"
  shows "filter (\<lambda>b. sort_compare (cmp a b) = 0) (insert_by cmp x ys) =
           filter (\<lambda>b. sort_compare (cmp a b) = 0) (x # ys)"
  using ys
proof (induction ys)
  case Nil
  then show ?case by simp
next
  case (Cons y ys)
  from Cons.prems have y: "y \<in> set zs" and sub: "set ys \<subseteq> set zs" by auto
  show ?case
  proof (cases "sort_compare (cmp x y) \<le> 0")
    case True
    then show ?thesis by simp
  next
    case False
    have "\<not> (sort_compare (cmp a x) = 0 \<and> sort_compare (cmp a y) = 0)"
    proof
      assume h: "sort_compare (cmp a x) = 0 \<and> sort_compare (cmp a y) = 0"
      then have "sort_compare (cmp x a) = 0" using consistentD(3) [OF c a x] by blast
      with h consistent_transD(1) [OF c x a y] have "sort_compare (cmp x y) = 0" by blast
      with False show False by simp
    qed
    with False Cons.IH [OF sub] show ?thesis by auto
  qed
qed

lemma stable_sort_stable:
  assumes c: "consistent_comparator cmp zs" and a: "a \<in> set zs" and sub: "set xs \<subseteq> set zs"
  shows "filter (\<lambda>b. sort_compare (cmp a b) = 0) (stable_sort cmp xs) =
           filter (\<lambda>b. sort_compare (cmp a b) = 0) xs"
  using sub
proof (induction xs)
  case Nil
  then show ?case by (simp add: stable_sort_def)
next
  case (Cons x xs)
  then have x: "x \<in> set zs" and s: "set (stable_sort cmp xs) \<subseteq> set zs"
    by (simp_all add: set_stable_sort)
  from filter_insert_by [OF c x a s] Cons show ?case
    by (simp add: stable_sort_Cons)
qed

lemma stable_sort_ties:
  assumes "\<And>a b. sort_compare (cmp a b) \<le> 0"
  shows "stable_sort cmp xs = xs"
proof (induction xs)
  case Nil
  show ?case by (simp add: stable_sort_def)
next
  case (Cons x xs)
  have "insert_by cmp x ys = x # ys" for ys using assms by (cases ys) simp_all
  with Cons show ?case by (simp add: stable_sort_Cons)
qed

lemma consistent_zero:
  assumes "\<And>a b. cmp a b = Num 0"
  shows "consistent_comparator cmp xs"
  unfolding consistent_comparator_def list_all_iff by (simp add: assms sort_compare_def)

lemma array_sort_ties:
  assumes "\<And>a b. cmp a b = Num 0"
  shows "array_sort engine cmp xs = xs"
proof -
  have "stable_sort cmp xs = xs"
    by (rule stable_sort_ties) (simp add: assms sort_compare_def)
  with consistent_zero [of cmp xs, OF assms] show ?thesis by (simp add: array_sort_def)
qed

lemma matchesSearch_criteria:
  "matchesSearch v r \<longleftrightarrow>
     searchTerm v = [] \<or>
     (\<exists>s \<in> set (text_fields r). str_includes (toLowerCase s) (toLowerCase (searchTerm v)))"
  by (simp add: matchesSearch_def record_values_def record_keys_def record_prop_def
      text_fields_def)

lemma matchesFilters_criteria:
  "matchesFilters v r \<longleftrightarrow>
     (\<forall>(key, x) \<in> set (filters v). truthy x \<longrightarrow> strict_eq (record_prop r key) x)"
  unfolding matchesFilters_def list_all_iff by (auto split: if_splits)

lemma matchesDateRange_criteria:
  "matchesDateRange v r \<longleftrightarrow>
     (dateRange_start v = [] \<or> str_le (dateRange_start v) (date r)) \<and>
     (dateRange_end v = [] \<or> str_le (date r) (dateRange_end v))"
  by (simp add: matchesDateRange_def)

lemma matchesSection_criteria:
  "matchesSection v r \<longleftrightarrow>
     (case activeSection v of
        Sec_all \<Rightarrow> True
      | Sec_pending \<Rightarrow>
          \<not> (shipping_bill_received r \<and> pq_status r = ''Received'' \<and>
             (permit_copy_status r = ''Received'' \<or> permit_copy_status r = ''Not Required''))
      | Sec_received \<Rightarrow>
          shipping_bill_received r \<and> pq_status r = ''Received'' \<and>
            (permit_copy_status r = ''Received'' \<or> permit_copy_status r = ''Not Required'')
      | Sec_hardcopyMissing \<Rightarrow> pq_hardcopy r = [] \<or> pq_hardcopy r = ''Not Received'')"
  by (cases "activeSection v") (auto simp: matchesSection_def Let_def)

lemma record_matches_criteria: "record_matches v = meets_criteria v"
proof (rule ext)
  fix r
  show "record_matches v r = meets_criteria v r"
    unfolding record_matches_def meets_criteria_def
    by (simp only: matchesSearch_criteria matchesFilters_criteria matchesDateRange_criteria
        matchesSection_criteria conj_assoc)
qed

lemma view_unfold:
  "filteredAndSortedRecords env v =
     array_sort (engine_order env) (compare_records env v) (filter (meets_criteria v) (records v))"
  by (simp add: filteredAndSortedRecords_def record_matches_criteria)

lemma compare_in_order:
  "sort_compare (compare_records env v a b) \<le> 0 \<Longrightarrow> in_sort_order env v a b"
  by (auto simp: compare_records_def in_sort_order_def sort_compare_def Let_def
      mult_le_0_iff
      split: option.splits jsval.splits if_splits)

lemma compare_no_text:
  assumes "sortBy v \<notin> {''id'', ''date'', ''shipper_name'', ''buyer'', ''invoice_number'',
      ''commodity'', ''pq_status'', ''pq_hardcopy'', ''permit_copy_status'', ''destination_port'',
      ''remarks'', ''created_at'', ''updated_at''}"
  shows "compare_records env v a b = Num 0"
proof -
  from assms have "\<not> (\<exists>x. record_prop a (sortBy v) = JStr x)"
    by (auto simp: record_prop_def split: if_splits)
  moreover from assms have "sortBy v \<noteq> ''date''" by simp
  ultimately show ?thesis
    by (auto simp: compare_records_def Let_def split: jsval.splits)
qed


lemma completed_unfold:
  "(shipping_bill_received r = True \<and> pq_status r = ''Received'' \<and>
      (permit_copy_status r = ''Received'' \<or> permit_copy_status r = ''Not Required''))
   = isRecordCompleted r"
  by (simp add: isRecordCompleted_def Let_def)



lemma set_prop_mem: "(k, x) \<in> set (set_prop k x ps)"
  by (induction ps) auto

lemma shipping_bill_filter_rejects:
  assumes "value \<noteq> []"
  shows "\<not> matchesFilters (onChange_shippingBill value v) r"
proof -
  let ?fs = "filters (onChange_shippingBill value v)"
  have "(''shipping_bill_received'', JStr value) \<in> set ?fs"
    using assms by (simp add: onChange_shippingBill_def set_prop_mem)
  moreover have "\<not> (if truthy (JStr value)
                    then strict_eq (record_prop r ''shipping_bill_received'') (JStr value)
                    else True)"
    using assms by (simp add: truthy_def strict_eq_def record_prop_def)
  ultimately show ?thesis
    unfolding matchesFilters_def list_all_iff by fastforce
qed

lemma shipping_bill_filter_empties_view:
  "value \<noteq> [] \<Longrightarrow> filteredAndSortedRecords env (onChange_shippingBill value v) = []"
  by (simp add: filteredAndSortedRecords_def record_matches_def shipping_bill_filter_rejects
      array_sort_Nil)

lemma parseInt_invoice: "parseInt ''RTC/037/2025-26'' = NaN"
  by (simp add: parseInt_def is_space_def is_digit_def)

lemma row_sends_parseInt:
  "col_invoice_number (sent_row (savePQRecord r)) = parseInt (invoice_number r)
   \<and> col_invoice_number (sent_row (updatePQRecord i r)) = parseInt (invoice_number r)"
  by (simp add: savePQRecord_def updatePQRecord_def sent_row_def row_of_def ensureNumber_def)

subsection \<open>The records view\<close>

text \<open>
  What the list of the view is: it holds the records that meet the criteria, each as
  often as \<open>records\<close> does. When the comparator is consistent on them, the list is in
  the order of the sort key and of the sort order, and records that compare as equal
  keep the order they had; when it is not (a date that is no date), the order is the
  engine's. When the sort key names no property of the records, the list is in the order
  of \<open>records\<close>.
\<close>

lemma view_is_filtered_and_sorted:
  "onClick_exportExcel env v = ExportToExcel (filteredAndSortedRecords env v)
   \<and> onClick_exportPDF env v = ExportToPDF (filteredAndSortedRecords env v)
   \<and> mset (filteredAndSortedRecords env v) = filter_mset (meets_criteria v) (mset (records v))
   \<and> (consistent_comparator (compare_records env v) (filter (meets_criteria v) (records v)) \<longrightarrow>
        sorted_wrt (in_sort_order env v) (filteredAndSortedRecords env v) \<and>
        (\<forall>a \<in> set (filter (meets_criteria v) (records v)).
           filter (\<lambda>b. sort_compare (compare_records env v a b) = 0)
             (filteredAndSortedRecords env v)
           = filter (\<lambda>b. sort_compare (compare_records env v a b) = 0)
               (filter (meets_criteria v) (records v))))
   \<and> (sortBy v \<notin> {''id'', ''date'', ''shipper_name'', ''buyer'', ''invoice_number'',
          ''commodity'', ''pq_status'', ''pq_hardcopy'', ''permit_copy_status'',
          ''destination_port'', ''remarks'', ''created_at'', ''updated_at''} \<longrightarrow>
        filteredAndSortedRecords env v = filter (meets_criteria v) (records v))"
proof -
  let ?ms = "filter (meets_criteria v) (records v)"
  let ?cmp = "compare_records env v"
  have a: "onClick_exportExcel env v = ExportToExcel (filteredAndSortedRecords env v)"
    by (simp add: onClick_exportExcel_def)
  have b: "onClick_exportPDF env v = ExportToPDF (filteredAndSortedRecords env v)"
    by (simp add: onClick_exportPDF_def)
  have m: "mset (filteredAndSortedRecords env v) = filter_mset (meets_criteria v) (mset (records v))"
    by (simp add: view_unfold mset_array_sort)
  have s: "sorted_wrt (in_sort_order env v) (filteredAndSortedRecords env v) \<and>
        (\<forall>a \<in> set ?ms.
           filter (\<lambda>b. sort_compare (?cmp a b) = 0) (filteredAndSortedRecords env v)
           = filter (\<lambda>b. sort_compare (?cmp a b) = 0) ?ms)"
    if c: "consistent_comparator ?cmp ?ms"
  proof -
    from c have out: "filteredAndSortedRecords env v = stable_sort ?cmp ?ms"
      by (simp add: view_unfold array_sort_def)
    have "sorted_wrt (\<lambda>a b. sort_compare (?cmp a b) \<le> 0) (stable_sort ?cmp ?ms)"
      by (rule sorted_stable_sort [OF c]) simp
    then have "sorted_wrt (in_sort_order env v) (stable_sort ?cmp ?ms)"
      by (rule sorted_wrt_mono_rel [rotated]) (rule compare_in_order)
    moreover have "filter (\<lambda>b. sort_compare (?cmp a b) = 0) (stable_sort ?cmp ?ms)
           = filter (\<lambda>b. sort_compare (?cmp a b) = 0) ?ms" if "a \<in> set ?ms" for a
      by (rule stable_sort_stable [OF c that]) simp
    ultimately show ?thesis unfolding out by blast
  qed
  have n: "filteredAndSortedRecords env v = ?ms"
    if k: "sortBy v \<notin> {''id'', ''date'', ''shipper_name'', ''buyer'', ''invoice_number'',
          ''commodity'', ''pq_status'', ''pq_hardcopy'', ''permit_copy_status'',
          ''destination_port'', ''remarks'', ''created_at'', ''updated_at''}"
    unfolding view_unfold
    by (rule array_sort_ties) (rule compare_no_text [OF k])
  from a b m s n show ?thesis by blast
qed

lemma sample_search:
  "filteredAndSortedRecords sample_env (sample_view\<lparr>searchTerm := ''acme''\<rparr>) = [sample_completed]"
  by code_simp

lemma sample_records_pass:
  "filter (meets_criteria (onChange_sortOrder ord (onChange_sortBy k sample_view)))
     (records (onChange_sortOrder ord (onChange_sortBy k sample_view)))
   = [sample_completed, sample_pending]"
  by (simp add: meets_criteria_def onChange_sortOrder_def onChange_sortBy_def sample_view_def)

lemma sample_unsorted:
  assumes "k \<notin> {''id'', ''date'', ''shipper_name'', ''buyer'', ''invoice_number'',
          ''commodity'', ''pq_status'', ''pq_hardcopy'', ''permit_copy_status'',
          ''destination_port'', ''remarks'', ''created_at'', ''updated_at''}"
  shows "filteredAndSortedRecords env (onChange_sortOrder ord (onChange_sortBy k sample_view))
     = [sample_completed, sample_pending]"
proof -
  let ?v = "onChange_sortOrder ord (onChange_sortBy k sample_view)"
  have k: "sortBy ?v = k"
    by (simp add: onChange_sortOrder_def onChange_sortBy_def)
  from view_is_filtered_and_sorted [of env ?v, THEN conjunct2, THEN conjunct2, THEN conjunct2,
      THEN conjunct2] assms
  have "filteredAndSortedRecords env ?v = filter (meets_criteria ?v) (records ?v)"
    unfolding k by blast
  then show ?thesis by (simp only: sample_records_pass)
qed

lemma sample_sorted_by_shipper:
  "filteredAndSortedRecords sample_env (onChange_sortOrder Desc (onChange_sortBy ''shipper_name'' sample_view))
     = [sample_pending, sample_completed]"
  "filteredAndSortedRecords sample_env (onChange_sortOrder Asc (onChange_sortBy ''shipper_name'' sample_view))
     = [sample_completed, sample_pending]"
  by code_simp+

text \<open>
  C5. The export buttons hand over the list \<open>filteredAndSortedRecords\<close>, and with the
  search term \<open>acme\<close> that list holds the one sample record that matches, not both.
  But the list is not in the order chosen. With the option \<open>Sort by Shipper\<close>, whose
  value is \<open>shipperName\<close>, both buttons receive the two sample records in the order
  in which they are stored, for the ascending and for the descending order alike and in
  every environment, though their shipper names differ; so it is with the options of the
  values \<open>createdAt\<close>, \<open>destinationPort\<close> and \<open>pqStatus\<close>. With the key
  \<open>shipper_name\<close>, which the records have and no option carries, the descending order
  gives the records by shipper name from last to first and the ascending order from first
  to last.
\<close>

theorem sort_option_keeps_stored_order:
  "''shipperName'' \<in> set sortBy_options \<and> ''shipper_name'' \<notin> set sortBy_options
   \<and> records sample_view = [sample_completed, sample_pending]
   \<and> shipper_name sample_completed = ''Acme Exports''
   \<and> shipper_name sample_pending = ''Spice Traders''
   \<and> onClick_exportExcel env (onChange_sortOrder ord (onChange_sortBy ''shipperName'' sample_view))
       = ExportToExcel [sample_completed, sample_pending]
   \<and> onClick_exportPDF env (onChange_sortOrder ord (onChange_sortBy ''shipperName'' sample_view))
       = ExportToPDF [sample_completed, sample_pending]
   \<and> onClick_exportExcel env (onChange_sortOrder ord (onChange_sortBy ''createdAt'' sample_view))
       = ExportToExcel [sample_completed, sample_pending]
   \<and> onClick_exportExcel env (onChange_sortOrder ord (onChange_sortBy ''destinationPort'' sample_view))
       = ExportToExcel [sample_completed, sample_pending]
   \<and> onClick_exportExcel env (onChange_sortOrder ord (onChange_sortBy ''pqStatus'' sample_view))
       = ExportToExcel [sample_completed, sample_pending]
   \<and> onClick_exportExcel sample_env
         (onChange_sortOrder Desc (onChange_sortBy ''shipper_name'' sample_view))
       = ExportToExcel [sample_pending, sample_completed]
   \<and> onClick_exportExcel sample_env
         (onChange_sortOrder Asc (onChange_sortBy ''shipper_name'' sample_view))
       = ExportToExcel [sample_completed, sample_pending]
   \<and> onClick_exportExcel sample_env (sample_view\<lparr>searchTerm := ''acme''\<rparr>)
       = ExportToExcel [sample_completed]
   \<and> onClick_exportPDF sample_env (sample_view\<lparr>searchTerm := ''acme''\<rparr>)
       = ExportToPDF [sample_completed]"
proof -
  have o: "''shipperName'' \<in> set sortBy_options" "''shipper_name'' \<notin> set sortBy_options"
    by (simp_all add: sortBy_options_def)
  have r: "records sample_view = [sample_completed, sample_pending]"
    by (simp add: sample_view_def)
  have n: "shipper_name sample_completed = ''Acme Exports''"
    "shipper_name sample_pending = ''Spice Traders''"
    by (simp_all add: sample_completed_def sample_pending_def)
  have u1: "filteredAndSortedRecords env (onChange_sortOrder ord (onChange_sortBy ''shipperName'' sample_view))
      = [sample_completed, sample_pending]"
    by (rule sample_unsorted) simp
  have u2: "filteredAndSortedRecords env (onChange_sortOrder ord (onChange_sortBy ''createdAt'' sample_view))
      = [sample_completed, sample_pending]"
    by (rule sample_unsorted) simp
  have u3: "filteredAndSortedRecords env (onChange_sortOrder ord (onChange_sortBy ''destinationPort'' sample_view))
      = [sample_completed, sample_pending]"
    by (rule sample_unsorted) simp
  have u4: "filteredAndSortedRecords env (onChange_sortOrder ord (onChange_sortBy ''pqStatus'' sample_view))
      = [sample_completed, sample_pending]"
    by (rule sample_unsorted) simp
  show ?thesis
    unfolding onClick_exportExcel_def onClick_exportPDF_def u1 u2 u3 u4 sample_sorted_by_shipper
      sample_search
    using o r n by (intro conjI) simp_all
qed

text \<open>
  C6. With the shipping bill filter set to \<open>Yes\<close>, and likewise to \<open>No\<close>, the view
  is empty, though the first sample record has its shipping bill received and the second
  has not: the filter holds the text of the option and the record holds a boolean.
\<close>

theorem shipping_bill_filter_selects_nothing:
  "filteredAndSortedRecords sample_env (onChange_shippingBill ''Yes'' sample_view) = []
   \<and> filteredAndSortedRecords sample_env (onChange_shippingBill ''No'' sample_view) = []
   \<and> records (onChange_shippingBill ''Yes'' sample_view) = [sample_completed, sample_pending]
   \<and> shipping_bill_received sample_completed = True
   \<and> shipping_bill_received sample_pending = False"
proof -
  have y: "filteredAndSortedRecords sample_env (onChange_shippingBill ''Yes'' sample_view) = []"
    by (rule shipping_bill_filter_empties_view) simp
  have n: "filteredAndSortedRecords sample_env (onChange_shippingBill ''No'' sample_view) = []"
    by (rule shipping_bill_filter_empties_view) simp
  have r: "records (onChange_shippingBill ''Yes'' sample_view) = [sample_completed, sample_pending]"
    by (simp add: onChange_shippingBill_def sample_view_def)
  have c: "shipping_bill_received sample_completed = True"
    by (simp add: sample_completed_def)
  have p: "shipping_bill_received sample_pending = False"
    by (simp add: sample_pending_def)
  from y n r c p show ?thesis by blast
qed



subsection \<open>Storage\<close>

text \<open>
  C7. For the invoice number \<open>RTC/037/2025-26\<close> the row that \<open>savePQRecord\<close> and
  \<open>updatePQRecord\<close> send holds \<open>NaN\<close> in the column \<open>invoice_number\<close>, not the
  text entered.
\<close>

theorem storage_converts_invoice_number:
  "invoice_number sample_completed = ''RTC/037/2025-26''
   \<and> col_invoice_number (sent_row (savePQRecord sample_completed)) = NaN
   \<and> col_invoice_number (sent_row (updatePQRecord ''r1'' sample_completed)) = NaN"
  by (simp add: savePQRecord_def updatePQRecord_def sent_row_def row_of_def ensureNumber_def
      sample_completed_def parseInt_invoice)

subsection \<open>Submitting the form\<close>

lemma set_prop_not_Nil: "set_prop k x ps \<noteq> []"
  by (cases ps) auto

lemma map_of_set_prop:
  "map_of (set_prop k x ps) k' = (if k' = k then Some x else map_of ps k')"
  by (induction ps) auto

lemma required_errors_Nil_iff:
  "required_errors f = [] \<longleftrightarrow>
     \<not> (blank (shipper_name f) \<or> blank (buyer f) \<or> blank (invoice_number f) \<or>
        blank (commodity f) \<or> blank (destination_port f))"
  by (simp add: required_errors_def Let_def set_prop_not_Nil)

lemma required_errors_lookup:
  "map_of (required_errors f) ''shipper_name'' =
     (if blank (shipper_name f) then Some ''Shipper name is required'' else None)"
  "map_of (required_errors f) ''buyer'' =
     (if blank (buyer f) then Some ''Buyer name is required'' else None)"
  "map_of (required_errors f) ''invoice_number'' =
     (if blank (invoice_number f) then Some ''Invoice number is required'' else None)"
  "map_of (required_errors f) ''commodity'' =
     (if blank (commodity f) then Some ''Commodity is required'' else None)"
  "map_of (required_errors f) ''destination_port'' =
     (if blank (destination_port f) then Some ''Destination country is required'' else None)"
  by (simp_all add: required_errors_def Let_def map_of_set_prop)

lemma handleSubmit_errors: "errors (handleSubmit e i t st) = required_errors (formData st)"
  by (simp add: handleSubmit_def Let_def)

lemma handleSubmit_rejected:
  "required_errors (formData st) \<noteq> [] \<Longrightarrow>
     calls (handleSubmit e i t st) = calls st \<and> formData (handleSubmit e i t st) = formData st"
  by (simp add: handleSubmit_def Let_def)

lemma handleSubmit_accepted:
  "required_errors (formData st) = [] \<Longrightarrow>
     \<exists>c. calls (handleSubmit e i t st) = calls st @ [c] \<and>
         (case e of None \<Rightarrow> (\<exists>row. c = Insert row) | Some r \<Rightarrow> (\<exists>k row. c = Update k row)) \<and>
         col_invoice_number (sent_row c) = ensureNumber (trim (invoice_number (formData st)))"
  by (cases e)
     (simp_all add: handleSubmit_def Let_def savePQRecord_def updatePQRecord_def sent_row_def
        row_of_def)

text \<open>
  C8. \<open>handleSubmit\<close> sends a request to the storage only when none of the five
  required fields (shipper name, buyer, invoice number, commodity, destination) is empty
  or white space: then it sends exactly one. When one of them is, no request is sent,
  the form data stay as they are, and the errors hold the message of every such field
  and of no other.
\<close>

theorem handleSubmit_gated:
  "(if blank (shipper_name (formData st)) \<or> blank (buyer (formData st)) \<or>
       blank (invoice_number (formData st)) \<or> blank (commodity (formData st)) \<or>
       blank (destination_port (formData st))
    then calls (handleSubmit e i t st) = calls st \<and>
         formData (handleSubmit e i t st) = formData st \<and>
         errors (handleSubmit e i t st) \<noteq> []
    else (\<exists>c. calls (handleSubmit e i t st) = calls st @ [c]) \<and>
         errors (handleSubmit e i t st) = [])
   \<and> map_of (errors (handleSubmit e i t st)) ''shipper_name'' =
       (if blank (shipper_name (formData st)) then Some ''Shipper name is required'' else None)
   \<and> map_of (errors (handleSubmit e i t st)) ''buyer'' =
       (if blank (buyer (formData st)) then Some ''Buyer name is required'' else None)
   \<and> map_of (errors (handleSubmit e i t st)) ''invoice_number'' =
       (if blank (invoice_number (formData st)) then Some ''Invoice number is required'' else None)
   \<and> map_of (errors (handleSubmit e i t st)) ''commodity'' =
       (if blank (commodity (formData st)) then Some ''Commodity is required'' else None)
   \<and> map_of (errors (handleSubmit e i t st)) ''destination_port'' =
       (if blank (destination_port (formData st))
        then Some ''Destination country is required'' else None)"
proof -
  let ?b = "blank (shipper_name (formData st)) \<or> blank (buyer (formData st)) \<or>
       blank (invoice_number (formData st)) \<or> blank (commodity (formData st)) \<or>
       blank (destination_port (formData st))"
  have gate: "if ?b
    then calls (handleSubmit e i t st) = calls st \<and>
         formData (handleSubmit e i t st) = formData st \<and>
         errors (handleSubmit e i t st) \<noteq> []
    else (\<exists>c. calls (handleSubmit e i t st) = calls st @ [c]) \<and>
         errors (handleSubmit e i t st) = []"
  proof (cases ?b)
    case True
    then have ne: "required_errors (formData st) \<noteq> []"
      using required_errors_Nil_iff [of "formData st"] by blast
    from handleSubmit_rejected [OF ne, of e i t] ne True show ?thesis
      by (simp only: handleSubmit_errors if_True simp_thms)
  next
    case False
    then have nil: "required_errors (formData st) = []"
      using required_errors_Nil_iff [of "formData st"] by blast
    from handleSubmit_accepted [OF nil, of e i t] obtain c
      where "calls (handleSubmit e i t st) = calls st @ [c]" by blast
    with nil False show ?thesis
      by (simp only: handleSubmit_errors if_False) blast
  qed
  show ?thesis
    unfolding handleSubmit_errors [of e i t st]
    using gate [unfolded handleSubmit_errors [of e i t st]] required_errors_lookup [of "formData st"]
    by blast
qed

lemma blank_samples:
  "blank []" "blank ''  ''" "\<not> blank ''Acme Exports ''" "\<not> blank ''Lanka Imports''"
  "\<not> blank ''RTC/037/2025-26''" "\<not> blank ''Dry Chillies''" "\<not> blank ''SRI LANKA''"
  by (simp_all add: blank_def trim_def is_space_def)

theorem handleSubmit_gated_witness:
  "calls (handleSubmit None ''id1'' ''2025-07-06'' (sample_filled\<lparr>formData := (formData sample_filled)\<lparr>buyer := ''  ''\<rparr>\<rparr>)) = []
   \<and> map_of (errors (handleSubmit None ''id1'' ''2025-07-06'' (sample_filled\<lparr>formData := (formData sample_filled)\<lparr>buyer := ''  ''\<rparr>\<rparr>))) ''buyer''
       = Some ''Buyer name is required''
   \<and> length (calls (handleSubmit None ''id1'' ''2025-07-06'' sample_filled)) = 1
   \<and> errors (handleSubmit None ''id1'' ''2025-07-06'' sample_filled) = []"
proof -
  let ?bad = "sample_filled\<lparr>formData := (formData sample_filled)\<lparr>buyer := ''  ''\<rparr>\<rparr>"
  have f: "shipper_name (formData sample_filled) = ''Acme Exports ''"
    "buyer (formData sample_filled) = ''Lanka Imports''"
    "invoice_number (formData sample_filled) = ''RTC/037/2025-26''"
    "commodity (formData sample_filled) = ''Dry Chillies''"
    "destination_port (formData sample_filled) = ''SRI LANKA''"
    "calls sample_filled = []"
    by (simp_all add: sample_filled_def initial_state_def initial_formData_def)
  have g: "buyer (formData ?bad) = ''  ''" "calls ?bad = []"
    by (simp_all add: f)
  from handleSubmit_gated [of ?bad None "''id1''" "''2025-07-06''"]
  have bad: "calls (handleSubmit None ''id1'' ''2025-07-06'' ?bad) = []"
    "map_of (errors (handleSubmit None ''id1'' ''2025-07-06'' ?bad)) ''buyer''
       = Some ''Buyer name is required''"
    by (simp_all add: g blank_samples)
  from handleSubmit_gated [of sample_filled None "''id1''" "''2025-07-06''"]
  have good: "length (calls (handleSubmit None ''id1'' ''2025-07-06'' sample_filled)) = 1"
    "errors (handleSubmit None ''id1'' ''2025-07-06'' sample_filled) = []"
    by (auto simp: f blank_samples)
  from bad good show ?thesis by blast
qed

subsection \<open>The matcher of the invoice pattern\<close>

lemma first_some_SomeD:
  "first_some f xs = Some y \<Longrightarrow> \<exists>x \<in> set xs. f x = Some y"
  by (induction xs) (auto split: option.splits)

lemma first_some_None_iff:
  "first_some f xs = None \<longleftrightarrow> (\<forall>x \<in> set xs. f x = None)"
  by (induction xs) (auto split: option.splits)

lemma slash_class: "\<not> is_upper (CHR ''/'')" "\<not> is_digit (CHR ''/'')"
  by (simp_all add: is_upper_def is_digit_def)

lemma run_stops:
  assumes "list_all P xs" "\<not> P y"
  shows "takeWhile P (xs @ y # ys) = xs" "dropWhile P (xs @ y # ys) = y # ys"
  using assms by (simp_all add: list_all_iff takeWhile_append2 dropWhile_append2)

lemma run_ends_at:
  assumes k: "k \<le> length (takeWhile P s)" and d: "drop k s = c # r" and c: "\<not> P c"
  shows "take k s = takeWhile P s"
proof -
  have sk: "s ! k = c" using d by (rule nth_via_drop)
  have "\<not> k < length (takeWhile P s)"
  proof
    assume lt: "k < length (takeWhile P s)"
    then have "takeWhile P s ! k \<in> set (takeWhile P s)" by simp
    then have "P (takeWhile P s ! k)" by (rule set_takeWhileD [THEN conjunct2])
    with lt sk c show False by (simp add: takeWhile_nth)
  qed
  with k have "k = length (takeWhile P s)" by simp
  then show ?thesis by (simp add: takeWhile_eq_take [symmetric])
qed

lemma match_tail_Some:
  "match_tail s = Some t \<longleftrightarrow> t = take 8 s \<and> year_part t"
  unfolding match_tail_def Let_def by (cases "year_part (take 8 s)") auto

lemma year_part_hd:
  assumes "year_part t"
  shows "\<exists>r. t = CHR ''/'' # r"
proof -
  from assms have "length t = 8" and h: "t ! 0 = CHR ''/''"
    by (simp_all add: year_part_def)
  then obtain c r where "t = c # r" by (cases t) auto
  with h show ?thesis by simp
qed

lemma match_tail_hd:
  assumes "match_tail s = Some t"
  shows "\<exists>r. s = CHR ''/'' # r"
proof -
  from assms have t: "t = take 8 s" and y: "year_part t"
    unfolding match_tail_Some by blast+
  from year_part_hd [OF y] obtain r where "take 8 s = CHR ''/'' # r" using t by auto
  then show ?thesis by (cases s) auto
qed

lemma match_tail_append:
  assumes "year_part t"
  shows "match_tail (t @ post) = Some t"
proof -
  from assms have "length t = 8" by (simp add: year_part_def)
  then have "take 8 (t @ post) = t" by simp
  with assms show ?thesis by (simp add: match_tail_def Let_def)
qed


lemma match_digits_Some:
  assumes "match_digits s = Some m"
  shows "\<exists>t. m = takeWhile is_digit s @ t \<and> takeWhile is_digit s \<noteq> [] \<and>
             match_tail (dropWhile is_digit s) = Some t"
proof -
  let ?n = "length (takeWhile is_digit s)"
  from assms obtain k where k: "k \<in> set (rev [1 ..< Suc ?n])"
    and f: "map_option (\<lambda>t. take k s @ t) (match_tail (drop k s)) = Some m"
    unfolding match_digits_def Let_def by (blast dest: first_some_SomeD)
  from f obtain t where t: "match_tail (drop k s) = Some t" and m: "m = take k s @ t"
    by (cases "match_tail (drop k s)") auto
  from k have k1: "1 \<le> k" and kn: "k \<le> ?n" by auto
  from match_tail_hd [OF t] obtain r where d: "drop k s = CHR ''/'' # r" by blast
  have tk: "take k s = takeWhile is_digit s"
    by (rule run_ends_at [OF kn d slash_class(2)])
  then have len: "k = ?n" using kn
  proof -
    have "length (take k s) = k" using kn length_takeWhile_le [of is_digit s] by simp
    with tk show ?thesis by simp
  qed
  have "dropWhile is_digit s = drop k s"
    using len by (simp add: dropWhile_eq_drop)
  with t m tk k1 len show ?thesis by auto
qed

lemma match_digits_complete:
  assumes ds: "ds \<noteq> []" "list_all is_digit ds"
    and t: "year_part t"
  shows "match_digits (ds @ t @ post) = Some (ds @ t)"
proof -
  from year_part_hd [OF t] obtain r where tr: "t = CHR ''/'' # r" by blast
  have tw: "takeWhile is_digit (ds @ t @ post) = ds"
    unfolding tr using run_stops(1) [OF ds(2) slash_class(2)] by simp
  have n: "length (takeWhile is_digit (ds @ t @ post)) = length ds" by (simp only: tw)
  from ds(1) obtain n' where n': "length ds = Suc n'" by (cases ds) auto
  have r: "rev [1 ..< Suc (length ds)] = length ds # rev [1 ..< length ds]"
    using n' by simp
  have mt: "match_tail (drop (length ds) (ds @ t @ post)) = Some t"
    using match_tail_append [OF t] by simp
  have "match_digits (ds @ t @ post) =
      first_some (\<lambda>m. map_option (\<lambda>u. take m (ds @ t @ post) @ u)
                         (match_tail (drop m (ds @ t @ post))))
        (length ds # rev [1 ..< length ds])"
    unfolding match_digits_def Let_def n r ..
  also have "\<dots> = Some (ds @ t)"
    by (simp only: first_some.simps mt option.case option.map) simp
  finally show ?thesis .
qed

lemma match_at_Some:
  assumes "match_at s = Some m"
  shows "\<exists>ds t post. m = takeWhile is_upper s @ CHR ''/'' # ds @ t \<and> s = m @ post \<and>
           2 \<le> length (takeWhile is_upper s) \<and> length (takeWhile is_upper s) \<le> 4 \<and>
           ds \<noteq> [] \<and> list_all is_digit ds \<and> year_part t"
proof -
  let ?n = "length (takeWhile is_upper s)"
  let ?f = "\<lambda>k. if k \<le> ?n then
                   (case drop k s of
                      c # r \<Rightarrow> if c = CHR ''/''
                               then map_option (\<lambda>t. take k s @ c # t) (match_digits r)
                               else None
                    | [] \<Rightarrow> None)
                 else None"
  from assms have "first_some ?f [4, 3, 2] = Some m"
    by (simp only: match_at_def Let_def)
  then obtain k where k: "k \<in> set [4, 3, 2::nat]" and f: "?f k = Some m"
    by (blast dest: first_some_SomeD)
  from f have kn: "k \<le> ?n" by (auto split: if_splits)
  from f kn obtain r u where d: "drop k s = CHR ''/'' # r"
    and u: "match_digits r = Some u" and m: "m = take k s @ CHR ''/'' # u"
    by (auto split: if_splits list.splits)
  have tk: "take k s = takeWhile is_upper s"
    by (rule run_ends_at [OF kn d slash_class(1)])
  have "length (take k s) = k" using kn length_takeWhile_le [of is_upper s] by simp
  with tk have len: "?n = k" by simp
  from match_digits_Some [OF u] obtain t
    where ut: "u = takeWhile is_digit r @ t" and ne: "takeWhile is_digit r \<noteq> []"
      and t: "match_tail (dropWhile is_digit r) = Some t"
    by blast
  from t have t8: "t = take 8 (dropWhile is_digit r)" and y: "year_part t"
    unfolding match_tail_Some by blast+
  have dig: "list_all is_digit (takeWhile is_digit r)"
    by (auto simp: list_all_iff dest: set_takeWhileD)
  have "s = take k s @ drop k s" by simp
  also have "\<dots> = take k s @ CHR ''/'' # (takeWhile is_digit r @ dropWhile is_digit r)"
    by (simp add: d)
  also have "dropWhile is_digit r = t @ drop 8 (dropWhile is_digit r)"
    by (simp add: t8)
  finally have s: "s = m @ drop 8 (dropWhile is_digit r)"
    by (simp add: m ut)
  from k len have "2 \<le> ?n" "?n \<le> 4" by auto
  with m ut tk s ne dig y show ?thesis by blast
qed

lemma match_at_complete:
  assumes ls: "2 \<le> length ls" "length ls \<le> 4" "list_all is_upper ls"
    and ds: "ds \<noteq> []" "list_all is_digit ds"
    and t: "year_part t"
  shows "match_at (ls @ CHR ''/'' # ds @ t @ post) = Some (ls @ CHR ''/'' # ds @ t)"
proof -
  let ?s = "ls @ CHR ''/'' # ds @ t @ post"
  have tw: "takeWhile is_upper ?s = ls"
    by (rule run_stops(1) [OF ls(3) slash_class(1)])
  have md: "match_digits (ds @ t @ post) = Some (ds @ t)"
    by (rule match_digits_complete [OF ds t])
  have here: "(if length ls \<le> length ls then
                   (case drop (length ls) ?s of
                      c # r \<Rightarrow> if c = CHR ''/''
                               then map_option (\<lambda>t. take (length ls) ?s @ c # t) (match_digits r)
                               else None
                    | [] \<Rightarrow> None)
                 else None) = Some (ls @ CHR ''/'' # ds @ t)"
    by (simp add: md)
  from ls(1,2) consider "length ls = 4" | "length ls = 3" | "length ls = 2" by linarith
  then show ?thesis
  proof cases
    case 1
    then show ?thesis
      unfolding match_at_def Let_def tw first_some.simps using here by simp
  next
    case 2
    then show ?thesis
      unfolding match_at_def Let_def tw first_some.simps using here by simp
  next
    case 3
    then show ?thesis
      unfolding match_at_def Let_def tw first_some.simps using here by simp
  qed
qed

lemma regex_search_Some:
  "regex_search s = Some m \<Longrightarrow> \<exists>i. match_at (drop i s) = Some m"
proof (induction s)
  case Nil
  then have "match_at (drop 0 []) = Some m" by simp
  then show ?case by blast
next
  case (Cons c cs)
  show ?case
  proof (cases "match_at (c # cs)")
    case (Some x)
    with Cons.prems have "match_at (drop 0 (c # cs)) = Some m" by simp
    then show ?thesis by blast
  next
    case None
    with Cons.prems have "regex_search cs = Some m" by simp
    from Cons.IH [OF this] obtain i where "match_at (drop i cs) = Some m" by blast
    then have "match_at (drop (Suc i) (c # cs)) = Some m" by simp
    then show ?thesis by blast
  qed
qed

lemma regex_search_None:
  "regex_search s = None \<Longrightarrow> match_at (drop i s) = None"
proof (induction s arbitrary: i)
  case Nil
  then show ?case by simp
next
  case (Cons c cs)
  then have h: "match_at (c # cs) = None" and t: "regex_search cs = None"
    by (auto split: option.splits)
  show ?case
  proof (cases i)
    case 0
    with h show ?thesis by simp
  next
    case (Suc j)
    with Cons.IH [OF t, of j] show ?thesis by simp
  qed
qed

lemma is_invoice_pattern_shape:
  "is_invoice_pattern m \<longleftrightarrow>
     (\<exists>ls ds t. m = ls @ CHR ''/'' # ds @ t \<and> 2 \<le> length ls \<and> length ls \<le> 4 \<and>
        list_all is_upper ls \<and> ds \<noteq> [] \<and> list_all is_digit ds \<and> year_part t)"
proof
  assume p: "is_invoice_pattern m"
  let ?ls = "takeWhile is_upper m"
  from p obtain r2 where r1: "dropWhile is_upper m = CHR ''/'' # r2"
    and len: "2 \<le> length ?ls" "length ?ls \<le> 4"
    and ds: "takeWhile is_digit r2 \<noteq> []" and y: "year_part (dropWhile is_digit r2)"
    unfolding is_invoice_pattern_def Let_def by (auto split: list.splits)
  have "m = ?ls @ dropWhile is_upper m" by simp
  also have "\<dots> = ?ls @ CHR ''/'' # takeWhile is_digit r2 @ dropWhile is_digit r2"
    by (simp add: r1)
  finally have m: "m = ?ls @ CHR ''/'' # takeWhile is_digit r2 @ dropWhile is_digit r2" .
  have u: "list_all is_upper ?ls" by (auto simp: list_all_iff dest: set_takeWhileD)
  have d: "list_all is_digit (takeWhile is_digit r2)"
    by (auto simp: list_all_iff dest: set_takeWhileD)
  from m len u ds d y show "\<exists>ls ds t. m = ls @ CHR ''/'' # ds @ t \<and> 2 \<le> length ls \<and>
      length ls \<le> 4 \<and> list_all is_upper ls \<and> ds \<noteq> [] \<and> list_all is_digit ds \<and> year_part t"
    by blast
next
  assume "\<exists>ls ds t. m = ls @ CHR ''/'' # ds @ t \<and> 2 \<le> length ls \<and> length ls \<le> 4 \<and>
        list_all is_upper ls \<and> ds \<noteq> [] \<and> list_all is_digit ds \<and> year_part t"
  then obtain ls ds t where m: "m = ls @ CHR ''/'' # ds @ t"
    and len: "2 \<le> length ls" "length ls \<le> 4" and u: "list_all is_upper ls"
    and ds: "ds \<noteq> []" "list_all is_digit ds" and y: "year_part t"
    by blast
  from year_part_hd [OF y] obtain r where t: "t = CHR ''/'' # r" by blast
  have a: "takeWhile is_upper m = ls" "dropWhile is_upper m = CHR ''/'' # ds @ t"
    unfolding m by (rule run_stops [OF u slash_class(1)])+
  have b: "takeWhile is_digit (ds @ t) = ds" "dropWhile is_digit (ds @ t) = t"
    unfolding t by (rule run_stops [OF ds(2) slash_class(2)])+
  show "is_invoice_pattern m"
    unfolding is_invoice_pattern_def Let_def a using len ds(1) y by (simp add: b)
qed

lemma match_at_pattern:
  assumes "match_at s = Some m"
  shows "is_invoice_pattern m \<and> (\<exists>post. s = m @ post)"
proof -
  from match_at_Some [OF assms] obtain ds t post
    where "m = takeWhile is_upper s @ CHR ''/'' # ds @ t" "s = m @ post"
      "2 \<le> length (takeWhile is_upper s)" "length (takeWhile is_upper s) \<le> 4"
      "ds \<noteq> []" "list_all is_digit ds" "year_part t"
    by blast
  moreover have "list_all is_upper (takeWhile is_upper s)"
    by (auto simp: list_all_iff dest: set_takeWhileD)
  ultimately show ?thesis unfolding is_invoice_pattern_shape by blast
qed

lemma regex_search_pattern:
  assumes "regex_search s = Some m"
  shows "is_invoice_pattern m \<and> (\<exists>pre post. s = pre @ m @ post)"
proof -
  from regex_search_Some [OF assms] obtain i
    where p: "match_at (drop i s) = Some m" by blast
  from match_at_pattern [OF p] obtain post
    where m: "is_invoice_pattern m" and d: "drop i s = m @ post" by blast
  have "s = take i s @ drop i s" by simp
  with d have "s = take i s @ m @ post" by simp
  with m show ?thesis by blast
qed

lemma regex_search_finds:
  assumes "is_invoice_pattern m"
  shows "regex_search (pre @ m @ post) \<noteq> None"
proof
  assume n: "regex_search (pre @ m @ post) = None"
  from assms obtain ls ds t where m: "m = ls @ CHR ''/'' # ds @ t"
    and "2 \<le> length ls" "length ls \<le> 4" "list_all is_upper ls"
    "ds \<noteq> []" "list_all is_digit ds" "year_part t"
    unfolding is_invoice_pattern_shape by blast
  then have "match_at (ls @ CHR ''/'' # ds @ t @ post) = Some (ls @ CHR ''/'' # ds @ t)"
    by (intro match_at_complete)
  then have "match_at (m @ post) = Some m" by (simp add: m)
  moreover from regex_search_None [OF n, of "length pre"]
  have "match_at (m @ post) = None" by simp
  ultimately show False by simp
qed

lemma regex_search_part:
  assumes "regex_search (a @ t @ b) = None"
  shows "regex_search t = None"
proof (rule ccontr)
  assume "regex_search t \<noteq> None"
  then obtain m where "regex_search t = Some m" by blast
  from regex_search_pattern [OF this] obtain pre post
    where m: "is_invoice_pattern m" and t: "t = pre @ m @ post" by blast
  from regex_search_finds [OF m, of "a @ pre" "post @ b"] assms t show False by simp
qed

lemma trim_part: "\<exists>a b. s = a @ trim s @ b"
proof -
  let ?u = "dropWhile is_space s"
  let ?v = "rev ?u"
  have "?u = rev ?v" by simp
  also have "\<dots> = rev (takeWhile is_space ?v @ dropWhile is_space ?v)"
    by (simp only: takeWhile_dropWhile_id)
  also have "\<dots> = rev (dropWhile is_space ?v) @ rev (takeWhile is_space ?v)"
    by (rule rev_append)
  finally have u: "?u = trim s @ rev (takeWhile is_space ?v)"
    by (simp only: trim_def)
  have "s = takeWhile is_space s @ ?u" by simp
  with u have "s = takeWhile is_space s @ trim s @ rev (takeWhile is_space ?v)"
    by simp
  then show ?thesis by blast
qed

lemma extractInvoiceNumber_match:
  assumes "regex_search (extractInvoiceNumber x) \<noteq> None"
  shows "regex_search (trim x) = Some (extractInvoiceNumber x)"
proof (cases "regex_search (trim x)")
  case (Some m)
  then show ?thesis by (simp add: extractInvoiceNumber_def Let_def)
next
  case None
  let ?pick = "first_some
                     (\<lambda>indicator. case indexOf (trim x) indicator of
                                     Some index \<Rightarrow> if index > 0
                                                   then Some (trim (take index (trim x)))
                                                   else None
                                   | None \<Rightarrow> None)
                     dateIndicators"
  have "regex_search (extractInvoiceNumber x) = None"
  proof (cases ?pick)
    case n: None
    with None show ?thesis by (simp add: extractInvoiceNumber_def Let_def)
  next
    case (Some r)
    then obtain i where r: "r = trim (take i (trim x))"
      by (auto dest!: first_some_SomeD split: option.splits if_splits)
    from trim_part [of "take i (trim x)"] obtain a b
      where "take i (trim x) = a @ r @ b" unfolding r by blast
    then have "trim x = a @ r @ (b @ drop i (trim x))"
      by (metis append_take_drop_id append.assoc)
    with None have "regex_search (a @ r @ (b @ drop i (trim x))) = None" by simp
    then have "regex_search r = None" by (rule regex_search_part)
    with None Some show ?thesis by (simp add: extractInvoiceNumber_def Let_def)
  qed
  with assms show ?thesis by simp
qed

lemma invoice_candidate_Some:
  assumes "invoice_candidate cm a = Some (c, a', raw)"
  shows "map_of cm a = Some raw \<and> regex_search (trim raw) = Some c \<and> is_invoice_pattern c"
proof -
  from assms have raw: "map_of cm a = Some raw" and c: "c = extractInvoiceNumber raw"
    and ne: "regex_search (extractInvoiceNumber raw) \<noteq> None"
    by (auto simp: invoice_candidate_def Let_def split: option.splits if_splits)
  from extractInvoiceNumber_match [OF ne] have "regex_search (trim raw) = Some c"
    by (simp add: c)
  with raw regex_search_pattern [OF this] show ?thesis by blast
qed

subsection \<open>The steps of the scan\<close>

lemma get_prop_set_prop:
  "get_prop (set_prop k x ps) k' = (if k' = k then Some x else get_prop ps k')"
  by (simp add: get_prop_def map_of_set_prop)

lemma say_simps:
  "extractedData (say m st) = extractedData st"
  "extractionDetails (say m st) = extractionDetails st"
  "scanLog (say m st) = scanLog st @ [Fixed m]"
  by (simp_all add: say_def)

lemma assign_simps:
  "extractedData (assign k x l st) = set_prop k x (extractedData st)"
  "extractionDetails (assign k x l st) = extractionDetails st @ [l]"
  "scanLog (assign k x l st) = scanLog st"
  by (simp_all add: assign_def)

lemma assign_frame:
  "k' \<noteq> k \<Longrightarrow> get_prop (extractedData (assign k x l st)) k' = get_prop (extractedData st) k'"
  by (simp add: assign_simps get_prop_set_prop)

lemma map_fst_set_prop:
  "set (map fst (set_prop k x ps)) = insert k (set (map fst ps))"
  by (induction ps) auto

lemma distinct_set_prop:
  "distinct (map fst ps) \<Longrightarrow> distinct (map fst (set_prop k x ps))"
proof (induction ps)
  case Nil
  then show ?case by simp
next
  case (Cons p ps)
  then show ?case using map_fst_set_prop [of k x ps] by auto
qed

lemma assign_scan_inv':
  assumes "scan_inv st" "map_of detail_keys a = Some k"
  shows "scan_inv (assign k x (Detail a b c d) st)"
proof -
  have keys: "set (map fst (set_prop k x (extractedData st)))
      = insert k (set (map fst (extractedData st)))"
    by (rule map_fst_set_prop)
  from assms(1) have d: "distinct (map fst (set_prop k x (extractedData st)))"
    by (simp add: scan_inv_def distinct_set_prop)
  from assms(1) have l: "\<forall>l \<in> set (scanLog st).
      l \<in> Fixed ` set progress_messages \<or> (\<exists>n. l = Found_cells n)"
    by (simp add: scan_inv_def)
  from assms(1) have e: "\<forall>l \<in> set (extractionDetails st).
        \<exists>label value a note key. l = Detail label value a note \<and>
          map_of detail_keys label = Some key \<and> key \<in> set (map fst (extractedData st))"
    by (simp add: scan_inv_def)
  have e': "\<forall>l \<in> set (extractionDetails st @ [Detail a b c d]).
        \<exists>label value a note key. l = Detail label value a note \<and>
          map_of detail_keys label = Some key \<and>
          key \<in> set (map fst (set_prop k x (extractedData st)))"
  proof
    fix l
    assume "l \<in> set (extractionDetails st @ [Detail a b c d])"
    then consider "l \<in> set (extractionDetails st)" | "l = Detail a b c d" by auto
    then show "\<exists>label value a note key. l = Detail label value a note \<and>
          map_of detail_keys label = Some key \<and>
          key \<in> set (map fst (set_prop k x (extractedData st)))"
    proof cases
      case 1
      with e obtain lb v ad nt key where "l = Detail lb v ad nt"
        "map_of detail_keys lb = Some key" "key \<in> set (map fst (extractedData st))"
        by blast
      with keys show ?thesis by blast
    next
      case 2
      with assms(2) keys show ?thesis by blast
    qed
  qed
  from d l e' show ?thesis
    unfolding scan_inv_def assign_simps by blast
qed

lemma assign_scan_inv:
  "scan_inv st \<Longrightarrow> scan_inv (assign ''shipper_name'' x (Detail ''Shipper'' b c d) st)"
  "scan_inv st \<Longrightarrow> scan_inv (assign ''buyer'' x (Detail ''Buyer'' b c d) st)"
  "scan_inv st \<Longrightarrow> scan_inv (assign ''invoice_number'' x (Detail ''Invoice'' b c d) st)"
  "scan_inv st \<Longrightarrow> scan_inv (assign ''commodity'' x (Detail ''Commodity'' b c d) st)"
  "scan_inv st \<Longrightarrow> scan_inv (assign ''destination_port'' x (Detail ''Destination'' b c d) st)"
  by (rule assign_scan_inv', assumption, simp add: detail_keys_def)+

lemma say_frame: "get_prop (extractedData (say m st)) k = get_prop (extractedData st) k"
  by (simp add: say_simps)

lemma say_scan_inv: "m \<in> set progress_messages \<Longrightarrow> scan_inv st \<Longrightarrow> scan_inv (say m st)"
  by (auto simp add: scan_inv_def say_simps)

subsection \<open>What each step of the scan may change\<close>

lemma extract_shipper_frame:
  "k \<noteq> ''shipper_name'' \<Longrightarrow>
     get_prop (extractedData (extract_shipper cm st)) k = get_prop (extractedData st) k"
  by (simp add: extract_shipper_def assign_frame split: option.splits prod.splits)

lemma extract_shipper_scan_inv: "scan_inv st \<Longrightarrow> scan_inv (extract_shipper cm st)"
  by (simp add: extract_shipper_def assign_scan_inv split: option.splits prod.splits)

lemma extract_buyer_frame:
  "k \<noteq> ''buyer'' \<Longrightarrow>
     get_prop (extractedData (extract_buyer cm st)) k = get_prop (extractedData st) k"
  by (simp add: extract_buyer_def assign_frame split: option.splits prod.splits)

lemma extract_buyer_scan_inv: "scan_inv st \<Longrightarrow> scan_inv (extract_buyer cm st)"
  by (simp add: extract_buyer_def assign_scan_inv split: option.splits prod.splits)

lemma buyer_in_range_frame:
  "k \<noteq> ''buyer'' \<Longrightarrow>
     get_prop (extractedData (buyer_in_range cm st)) k = get_prop (extractedData st) k"
  by (simp add: buyer_in_range_def Let_def assign_frame say_frame split: option.splits prod.splits)

lemma buyer_in_range_scan_inv: "scan_inv st \<Longrightarrow> scan_inv (buyer_in_range cm st)"
  by (simp add: buyer_in_range_def Let_def assign_scan_inv say_scan_inv progress_messages_def
      split: option.splits prod.splits)


lemma assign_invoice_scan_inv: "scan_inv st \<Longrightarrow> scan_inv (assign_invoice found st)"
  by (simp add: assign_invoice_def assign_scan_inv split: option.splits prod.splits)



lemma invoice_beside_scan_inv: "scan_inv st \<Longrightarrow> scan_inv (invoice_beside cm row col st)"
  by (simp add: invoice_beside_def assign_invoice_scan_inv)

lemma invoice_below_scan_inv: "scan_inv st \<Longrightarrow> scan_inv (invoice_below cm row col st)"
  by (simp add: invoice_below_def assign_invoice_scan_inv)


lemma invoice_scan_scan_inv: "scan_inv st \<Longrightarrow> scan_inv (invoice_scan cm es st)"
proof (induction cm es st rule: invoice_scan.induct)
  case (1 cm st)
  then show ?case by simp
next
  case (2 cm row col v rest st)
  then show ?case
    by (simp add: Let_def invoice_below_scan_inv invoice_beside_scan_inv)
qed


lemma invoice_in_area_scan_inv: "scan_inv st \<Longrightarrow> scan_inv (invoice_in_area cm st)"
  by (simp add: invoice_in_area_def Let_def assign_invoice_scan_inv say_scan_inv progress_messages_def)

lemma commodity_cell_frame:
  "k \<noteq> ''commodity'' \<Longrightarrow>
     get_prop (extractedData (commodity_cell a v st)) k = get_prop (extractedData st) k"
  by (simp add: commodity_cell_def Let_def assign_frame)

lemma commodity_cell_scan_inv: "scan_inv st \<Longrightarrow> scan_inv (commodity_cell a v st)"
  by (simp add: commodity_cell_def Let_def assign_scan_inv)

lemma commodity_scan_frame:
  "k \<noteq> ''commodity'' \<Longrightarrow>
     get_prop (extractedData (commodity_scan es st)) k = get_prop (extractedData st) k"
proof (induction es st rule: commodity_scan.induct)
  case (1 st)
  show ?case by simp
next
  case (2 a v rest st)
  then show ?case by (simp add: Let_def commodity_cell_frame)
qed

lemma commodity_scan_scan_inv: "scan_inv st \<Longrightarrow> scan_inv (commodity_scan es st)"
proof (induction es st rule: commodity_scan.induct)
  case (1 st)
  then show ?case by simp
next
  case (2 a v rest st)
  then show ?case by (simp add: Let_def commodity_cell_scan_inv)
qed

lemma destination_beside_frame:
  "k \<noteq> ''destination_port'' \<Longrightarrow>
     get_prop (extractedData (destination_beside cm row col st)) k = get_prop (extractedData st) k"
  by (simp add: destination_beside_def assign_frame split: option.splits prod.splits)

lemma destination_below_frame:
  "k \<noteq> ''destination_port'' \<Longrightarrow>
     get_prop (extractedData (destination_below cm row col st)) k = get_prop (extractedData st) k"
  by (simp add: destination_below_def assign_frame split: option.splits)

lemma destination_beside_scan_inv: "scan_inv st \<Longrightarrow> scan_inv (destination_beside cm row col st)"
  by (simp add: destination_beside_def assign_scan_inv split: option.splits prod.splits)

lemma destination_below_scan_inv: "scan_inv st \<Longrightarrow> scan_inv (destination_below cm row col st)"
  by (simp add: destination_below_def assign_scan_inv split: option.splits)

lemma destination_scan_frame:
  "k \<noteq> ''destination_port'' \<Longrightarrow>
     get_prop (extractedData (destination_scan cm es st)) k = get_prop (extractedData st) k"
proof (induction cm es st rule: destination_scan.induct)
  case (1 cm st)
  show ?case by simp
next
  case (2 cm row col v rest st)
  then show ?case
    by (simp add: Let_def destination_below_frame destination_beside_frame)
qed

lemma destination_scan_scan_inv: "scan_inv st \<Longrightarrow> scan_inv (destination_scan cm es st)"
proof (induction cm es st rule: destination_scan.induct)
  case (1 cm st)
  then show ?case by simp
next
  case (2 cm row col v rest st)
  then show ?case
    by (simp add: Let_def destination_below_scan_inv destination_beside_scan_inv)
qed

lemma fallback_cell_frame:
  "k \<noteq> ''destination_port'' \<Longrightarrow>
     get_prop (extractedData (fallback_cell a c st)) k = get_prop (extractedData st) k"
  by (simp add: fallback_cell_def Let_def assign_frame split: option.splits)

lemma fallback_cell_scan_inv: "scan_inv st \<Longrightarrow> scan_inv (fallback_cell a c st)"
  by (simp add: fallback_cell_def Let_def assign_scan_inv split: option.splits)

lemma fallback_scan_frame:
  "k \<noteq> ''destination_port'' \<Longrightarrow>
     get_prop (extractedData (fallback_scan es st)) k = get_prop (extractedData st) k"
proof (induction es st rule: fallback_scan.induct)
  case (1 st)
  show ?case by simp
next
  case (2 a v rest st)
  then show ?case by (simp add: Let_def fallback_cell_frame)
qed

lemma fallback_scan_scan_inv: "scan_inv st \<Longrightarrow> scan_inv (fallback_scan es st)"
proof (induction es st rule: fallback_scan.induct)
  case (1 st)
  then show ?case by simp
next
  case (2 a v rest st)
  then show ?case by (simp add: Let_def fallback_cell_scan_inv)
qed

lemma destination_fallback_frame:
  "k \<noteq> ''destination_port'' \<Longrightarrow>
     get_prop (extractedData (destination_fallback cm st)) k = get_prop (extractedData st) k"
  by (simp add: destination_fallback_def fallback_scan_frame say_frame)

lemma destination_fallback_scan_inv: "scan_inv st \<Longrightarrow> scan_inv (destination_fallback cm st)"
  by (simp add: destination_fallback_def fallback_scan_scan_inv say_scan_inv progress_messages_def)

subsection \<open>The whole scan\<close>



lemma run_scan_inv: "scan_inv (run_scan jsonData)"
proof -
  have s0: "scan_inv \<lparr>extractedData = [], extractionDetails = [],
                scanLog = [Fixed ''Starting precise data extraction from invoice...'',
                           Fixed ''Analyzing sheet'',
                           Found_cells (length (build_cellMap jsonData))]\<rparr>"
    by (simp add: scan_inv_def progress_messages_def)
  have m: "''Searching for Exporter/Shipper information...'' \<in> set progress_messages"
    "''Searching for Buyer/Consignee information...'' \<in> set progress_messages"
    "''Searching for Invoice Number (excluding date)...'' \<in> set progress_messages"
    "''Searching for Commodity information...'' \<in> set progress_messages"
    "''Searching for Final Destination Country (NOT Origin)...'' \<in> set progress_messages"
    by (simp_all add: progress_messages_def)
  show ?thesis
    unfolding run_scan_def Let_def
    by (intro destination_fallback_scan_inv destination_scan_scan_inv commodity_scan_scan_inv
        invoice_in_area_scan_inv invoice_scan_scan_inv buyer_in_range_scan_inv
        extract_buyer_scan_inv extract_shipper_scan_inv say_scan_inv m s0)
qed


subsection \<open>The invoice number of the scan\<close>

lemma invoice_ok_cong:
  "get_prop (extractedData st') ''invoice_number'' = get_prop (extractedData st) ''invoice_number''
     \<Longrightarrow> invoice_ok cm st' = invoice_ok cm st"
  by (simp add: invoice_ok_def)

lemma assign_invoice_ok:
  assumes f: "\<And>x. found = Some x \<Longrightarrow> \<exists>a. invoice_candidate cm a = Some x"
    and ok: "invoice_ok cm st"
  shows "invoice_ok cm (assign_invoice found st)"
proof (cases found)
  case None
  with ok show ?thesis by (simp add: assign_invoice_def)
next
  case (Some x)
  obtain c a' raw where x: "x = (c, a', raw)" by (cases x) auto
  from f [OF Some] obtain a where "invoice_candidate cm a = Some (c, a', raw)"
    unfolding x by blast
  from invoice_candidate_Some [OF this]
  have "map_of cm a = Some raw" "regex_search (trim raw) = Some c" "is_invoice_pattern c"
    by blast+
  then have "is_invoice_pattern c \<and>
      (\<exists>a raw. map_of cm a = Some raw \<and> regex_search (trim raw) = Some c)"
    by blast
  then show ?thesis
    by (simp add: Some x assign_invoice_def invoice_ok_def assign_simps get_prop_set_prop)
qed

lemma invoice_beside_ok: "invoice_ok cm st \<Longrightarrow> invoice_ok cm (invoice_beside cm row col st)"
  unfolding invoice_beside_def
  by (rule assign_invoice_ok) (blast dest: first_some_SomeD)+

lemma invoice_below_ok:
  assumes ok: "invoice_ok cm st"
  shows "invoice_ok cm (invoice_below cm row col st)"
proof (cases "is_set (get_prop (extractedData st) ''invoice_number'')")
  case True
  with ok show ?thesis by (simp add: invoice_below_def)
next
  case False
  have "invoice_ok cm (assign_invoice
          (first_some (\<lambda>rowOffset. invoice_candidate cm (row + rowOffset, col)) [1, 2, 3]) st)"
    by (rule assign_invoice_ok [OF _ ok]) (blast dest: first_some_SomeD)
  with False show ?thesis by (simp only: invoice_below_def if_True simp_thms)
qed

lemma invoice_scan_ok: "invoice_ok cm st \<Longrightarrow> invoice_ok cm (invoice_scan cm es st)"
proof (induction cm es st rule: invoice_scan.induct)
  case (1 cm st)
  then show ?case by simp
next
  case (2 cm row col v rest st)
  then show ?case
    by (simp add: Let_def invoice_below_ok invoice_beside_ok)
qed

lemma invoice_in_area_ok: "invoice_ok cm st \<Longrightarrow> invoice_ok cm (invoice_in_area cm st)"
proof -
  assume ok: "invoice_ok cm st"
  have ok1: "invoice_ok cm (say ''Searching invoice number in M4+ area...'' st)"
    using ok by (simp add: invoice_ok_cong [OF say_frame])
  have "invoice_ok cm (assign_invoice
              (first_some
                 (\<lambda>row. first_some (\<lambda>col. invoice_candidate cm (row, col)) [12 ..< 21])
                 [3 ..< 11])
              (say ''Searching invoice number in M4+ area...'' st))"
    by (rule assign_invoice_ok [OF _ ok1]) (blast dest: first_some_SomeD)
  with ok show ?thesis by (simp add: invoice_in_area_def Let_def)
qed

lemma run_scan_invoice_ok: "invoice_ok (build_cellMap jsonData) (run_scan jsonData)"
proof -
  let ?cm = "build_cellMap jsonData"
  have other: "invoice_ok ?cm (extract_shipper ?cm st) = invoice_ok ?cm st"
    "invoice_ok ?cm (extract_buyer ?cm st) = invoice_ok ?cm st"
    "invoice_ok ?cm (buyer_in_range ?cm st) = invoice_ok ?cm st"
    "invoice_ok ?cm (commodity_scan es st) = invoice_ok ?cm st"
    "invoice_ok ?cm (destination_scan ?cm es st) = invoice_ok ?cm st"
    "invoice_ok ?cm (destination_fallback ?cm st) = invoice_ok ?cm st"
    "invoice_ok ?cm (say m st) = invoice_ok ?cm st" for st es m
    by (rule invoice_ok_cong,
        simp add: extract_shipper_frame extract_buyer_frame buyer_in_range_frame
          commodity_scan_frame destination_scan_frame destination_fallback_frame say_frame)+
  have s0: "invoice_ok ?cm \<lparr>extractedData = [], extractionDetails = [], scanLog = l\<rparr>" for l
    by (simp add: invoice_ok_def get_prop_def)
  show ?thesis
    unfolding run_scan_def Let_def other
    by (intro invoice_in_area_ok invoice_scan_ok) (simp add: other s0)
qed

subsection \<open>Merging into the form\<close>

lemma merge_extracted_Cons:
  "merge_extracted ((k, v) # e) f = merge_extracted e (form_assign k v f)"
  by (simp add: merge_extracted_def)

lemma merge_field:
  assumes hit: "\<And>v f. sel (form_assign K v f) = v"
    and miss: "\<And>k v f. k \<noteq> K \<Longrightarrow> sel (form_assign k v f) = sel f"
    and d: "distinct (map fst e)"
  shows "sel (merge_extracted e f) = (case get_prop e K of Some v \<Rightarrow> v | None \<Rightarrow> sel f)"
  using d
proof (induction e arbitrary: f)
  case Nil
  show ?case by (simp add: merge_extracted_def get_prop_def)
next
  case (Cons p e)
  obtain k v where p: "p = (k, v)" by (cases p) auto
  from Cons.prems have d: "distinct (map fst e)" and k: "k \<notin> set (map fst e)"
    by (simp_all add: p)
  show ?case
  proof (cases "k = K")
    case True
    with k have "get_prop e K = None" by (simp add: get_prop_def map_of_eq_None_iff)
    with Cons.IH [OF d, of "form_assign k v f"] True hit show ?thesis
      by (simp add: p merge_extracted_Cons get_prop_def)
  next
    case False
    with Cons.IH [OF d, of "form_assign k v f"] miss [OF False, of v f] show ?thesis
      by (simp add: p merge_extracted_Cons get_prop_def split: option.splits)
  qed
qed


lemma formData_extract:
  "formData (extractDataFromExcel wb st) =
     (case wb of
        Unreadable msg \<Rightarrow> formData st
      | Sheet jsonData \<Rightarrow> merge_extracted (extractedData (run_scan jsonData)) (formData st))"
  by (cases wb) (simp_all add: extractDataFromExcel_def Let_def merge_extracted_def)

lemma formData_upload:
  "formData (handleFileUpload name wb st) =
     (if ends_with name ''.xlsx'' \<or> ends_with name ''.xls''
      then (case wb of
              Unreadable msg \<Rightarrow> formData st
            | Sheet jsonData \<Rightarrow> merge_extracted (extractedData (run_scan jsonData)) (formData st))
      else formData st)"
  by (cases wb) (simp_all add: handleFileUpload_def Let_def formData_extract)


subsection \<open>Where the scan takes commodity and shipper from\<close>












subsection \<open>The extraction\<close>

text \<open>
  C1. Whenever the scan of a sheet sets \<open>invoice_number\<close>, the value is a text of the
  pattern \<^verbatim>\<open>[A-Z]{2,4}/digits/dddd-dd\<close> and nothing more: it is the match found in the
  trimmed text of a cell of the sheet, so what follows the number in the cell (a date
  after \<^verbatim>\<open>DT:\<close>, say) is left out, and a cell without the pattern gives no value.
  On the form, an upload either leaves the invoice number as it was or sets it to a text
  of the pattern.
\<close>

theorem extracted_invoice_number_is_pattern:
  "(\<forall>v. get_prop (extractedData (run_scan jsonData)) ''invoice_number'' = Some v \<longrightarrow>
        is_invoice_pattern v \<and>
        (\<exists>a raw. map_of (build_cellMap jsonData) a = Some raw \<and>
                 regex_search (trim raw) = Some v))
   \<and> (invoice_number (formData (handleFileUpload name (Sheet jsonData) st))
         = invoice_number (formData st)
       \<or> is_invoice_pattern
           (invoice_number (formData (handleFileUpload name (Sheet jsonData) st))))"
proof -
  let ?e = "extractedData (run_scan jsonData)"
  have ok: "\<forall>v. get_prop ?e ''invoice_number'' = Some v \<longrightarrow>
        is_invoice_pattern v \<and>
        (\<exists>a raw. map_of (build_cellMap jsonData) a = Some raw \<and>
                 regex_search (trim raw) = Some v)"
    using run_scan_invoice_ok [of jsonData] unfolding invoice_ok_def
    by (auto split: option.splits)
  have d: "distinct (map fst ?e)"
    using run_scan_inv [of jsonData] by (simp add: scan_inv_def)
  have m: "invoice_number (merge_extracted ?e (formData st)) =
      (case get_prop ?e ''invoice_number'' of
         Some v \<Rightarrow> v | None \<Rightarrow> invoice_number (formData st))"
    by (rule merge_field [OF _ _ d]) (simp_all add: form_assign_def)
  have "invoice_number (formData (handleFileUpload name (Sheet jsonData) st))
         = invoice_number (formData st)
       \<or> is_invoice_pattern
           (invoice_number (formData (handleFileUpload name (Sheet jsonData) st)))"
  proof (cases "get_prop ?e ''invoice_number''")
    case None
    with m show ?thesis by (simp add: formData_upload)
  next
    case (Some v)
    with ok have "is_invoice_pattern v" by blast
    with m Some show ?thesis by (simp add: formData_upload)
  qed
  with ok show ?thesis by blast
qed

lemma sheet_invoice_scan:
  "get_prop (extractedData (run_scan sheet_invoice)) ''invoice_number'' = Some ''RTC/037/2025-26''"
  by code_simp

theorem extracted_invoice_number_is_pattern_witness:
  "get_prop (extractedData (run_scan sheet_invoice)) ''invoice_number'' = Some ''RTC/037/2025-26''
   \<and> is_invoice_pattern ''RTC/037/2025-26''"
  using extracted_invoice_number_is_pattern [of sheet_invoice "[]" "initial_state []"]
    sheet_invoice_scan
  by blast

lemma two_countries_map:
  "build_cellMap sheet_two_countries =
     [((0, 0), ''Nepal Traders''), ((1, 0), ''Final Destination''), ((1, 1), ''Dubai'')]"
  by code_simp

lemma two_countries_label:
  "get_prop (extractedData
      (destination_scan (build_cellMap sheet_two_countries) (build_cellMap sheet_two_countries)
         empty_scan)) ''destination_port'' = Some ''DUBAI''"
  by code_simp

lemma two_countries_fallback:
  "get_prop (extractedData
      (destination_fallback (build_cellMap sheet_two_countries)
        (destination_scan (build_cellMap sheet_two_countries) (build_cellMap sheet_two_countries)
           empty_scan))) ''destination_port'' = Some ''NEPAL''"
  by code_simp

lemma two_countries_details:
  "extractionDetails (run_scan sheet_two_countries) =
     [Detail ''Destination'' ''DUBAI'' (1, 1) ''from'',
      Detail ''Destination'' ''NEPAL'' (0, 0) ''fallback search'']"
  by code_simp

lemma two_countries_form:
  "destination_port (formData (handleFileUpload ''invoice.xlsx'' (Sheet sheet_two_countries)
      (initial_state ''2025-07-06''))) = ''NEPAL''"
  by code_simp

text \<open>
  C2. On the sheet with \<open>Nepal Traders\<close> in its first cell and \<open>Dubai\<close> beside
  the label \<open>Final Destination\<close>, the search by label sets the destination to
  \<open>DUBAI\<close>, and the fallback search, which runs all the same, sets it to \<open>NEPAL\<close>:
  the form receives \<open>NEPAL\<close>.
\<close>

theorem fallback_overwrites_labelled_destination:
  "build_cellMap sheet_two_countries =
     [((0, 0), ''Nepal Traders''), ((1, 0), ''Final Destination''), ((1, 1), ''Dubai'')]
   \<and> get_prop (extractedData
        (destination_scan (build_cellMap sheet_two_countries)
           (build_cellMap sheet_two_countries) empty_scan)) ''destination_port''
       = Some ''DUBAI''
   \<and> get_prop (extractedData
        (destination_fallback (build_cellMap sheet_two_countries)
          (destination_scan (build_cellMap sheet_two_countries)
             (build_cellMap sheet_two_countries) empty_scan))) ''destination_port''
       = Some ''NEPAL''
   \<and> extractionDetails (run_scan sheet_two_countries) =
       [Detail ''Destination'' ''DUBAI'' (1, 1) ''from'',
        Detail ''Destination'' ''NEPAL'' (0, 0) ''fallback search'']
   \<and> destination_port (formData (handleFileUpload ''invoice.xlsx'' (Sheet sheet_two_countries)
        (initial_state ''2025-07-06''))) = ''NEPAL''"
  using two_countries_map two_countries_label two_countries_fallback
    two_countries_details two_countries_form
  by blast





















end
